theory Spec2Isabelle
  imports Complex_Main
begin

section \<open>Magic Grid: a masonry layout (src/index.js)\<close>

text \<open>
  The class \<^verbatim>\<open>MagicGrid\<close> of \<^verbatim>\<open>src/index.js\<close> is embedded method by method.
  The object and the part of the DOM it reaches are a record that every method takes and
  returns; an exception is a value; the one loop that can run without end is a value too.

  Measurements and the gutter are finite numbers, modelled as exact rationals (the
  rounding of double arithmetic is not modelled). The results that JavaScript computes
  beyond the finite numbers (a division by zero, and what follows from it) are written
  out in the type \<open>number\<close>. What \<^verbatim>\<open>getBoundingClientRect()\<close> measures is a field of
  an element of its own, given from outside: writing a style does not change it.
  Timers and resize notifications carry their time in whole milliseconds.
\<close>

subsection \<open>Numbers\<close>

datatype number = Num rat | PosInfinity | NegInfinity | NaN

text \<open>\<^verbatim>\<open>a / b\<close>\<close>

fun div_js :: "number \<Rightarrow> number \<Rightarrow> number" where
  "div_js (Num a) (Num b) =
     (if b = 0 then (if 0 < a then PosInfinity else if a < 0 then NegInfinity else NaN)
      else Num (a / b))"
| "div_js PosInfinity (Num b) = (if b < 0 then NegInfinity else PosInfinity)"
| "div_js NegInfinity (Num b) = (if b < 0 then PosInfinity else NegInfinity)"
| "div_js (Num a) PosInfinity = Num 0"
| "div_js (Num a) NegInfinity = Num 0"
| "div_js _ _ = NaN"

text \<open>\<^verbatim>\<open>a * b\<close>\<close>

fun mul_js :: "number \<Rightarrow> number \<Rightarrow> number" where
  "mul_js (Num a) (Num b) = Num (a * b)"
| "mul_js PosInfinity (Num b) =
     (if 0 < b then PosInfinity else if b < 0 then NegInfinity else NaN)"
| "mul_js NegInfinity (Num b) =
     (if 0 < b then NegInfinity else if b < 0 then PosInfinity else NaN)"
| "mul_js (Num a) PosInfinity =
     (if 0 < a then PosInfinity else if a < 0 then NegInfinity else NaN)"
| "mul_js (Num a) NegInfinity =
     (if 0 < a then NegInfinity else if a < 0 then PosInfinity else NaN)"
| "mul_js PosInfinity PosInfinity = PosInfinity"
| "mul_js NegInfinity NegInfinity = PosInfinity"
| "mul_js PosInfinity NegInfinity = NegInfinity"
| "mul_js NegInfinity PosInfinity = NegInfinity"
| "mul_js _ _ = NaN"

text \<open>\<^verbatim>\<open>a + b\<close> and \<^verbatim>\<open>a - b\<close>\<close>

fun add_js :: "number \<Rightarrow> number \<Rightarrow> number" where
  "add_js (Num a) (Num b) = Num (a + b)"
| "add_js NaN _ = NaN"
| "add_js _ NaN = NaN"
| "add_js PosInfinity NegInfinity = NaN"
| "add_js NegInfinity PosInfinity = NaN"
| "add_js PosInfinity _ = PosInfinity"
| "add_js NegInfinity _ = NegInfinity"
| "add_js _ PosInfinity = PosInfinity"
| "add_js _ NegInfinity = NegInfinity"

fun neg_js :: "number \<Rightarrow> number" where
  "neg_js (Num a) = Num (- a)"
| "neg_js PosInfinity = NegInfinity"
| "neg_js NegInfinity = PosInfinity"
| "neg_js NaN = NaN"

definition sub_js :: "number \<Rightarrow> number \<Rightarrow> number" where
  "sub_js a b = add_js a (neg_js b)"

text \<open>\<^verbatim>\<open>Math.floor(a)\<close>\<close>

fun floor_js :: "number \<Rightarrow> number" where
  "floor_js (Num a) = Num (of_int \<lfloor>a\<rfloor>)"
| "floor_js x = x"

text \<open>\<^verbatim>\<open>a > b\<close>: false as soon as one side is \<^verbatim>\<open>NaN\<close>.\<close>

fun gt_js :: "number \<Rightarrow> number \<Rightarrow> bool" where
  "gt_js (Num a) (Num b) = (b < a)"
| "gt_js NaN _ = False"
| "gt_js _ NaN = False"
| "gt_js PosInfinity PosInfinity = False"
| "gt_js PosInfinity _ = True"
| "gt_js _ NegInfinity = True"
| "gt_js _ _ = False"

text \<open>The truth value of a number in a condition: \<^verbatim>\<open>0\<close> and \<^verbatim>\<open>NaN\<close> are falsy.\<close>

fun truthy :: "number \<Rightarrow> bool" where
  "truthy (Num a) = (a \<noteq> 0)"
| "truthy NaN = False"
| "truthy _ = True"

text \<open>\<^verbatim>\<open>a || b\<close>\<close>

definition or_js :: "number \<Rightarrow> number \<Rightarrow> number" where
  "or_js a b = (if truthy a then a else b)"

subsection \<open>Completions\<close>

datatype error = TypeError | ConfigurationError

text \<open>
  A call returns a value, throws, or never returns (\<open>Diverge\<close>: the loop of \<^verbatim>\<open>setup\<close>
  counts up to \<^verbatim>\<open>numCols\<close>, which can be \<^verbatim>\<open>Infinity\<close>).
\<close>

datatype 'a result = Return 'a | Throw error | Diverge

subsection \<open>The DOM the grid reaches\<close>

text \<open>
  Of \<^verbatim>\<open>element.style\<close> the grid writes \<^verbatim>\<open>position\<close>, \<^verbatim>\<open>transition\<close>, \<^verbatim>\<open>top\<close>, \<^verbatim>\<open>left\<close>,
  \<^verbatim>\<open>transform\<close> and \<^verbatim>\<open>height\<close>; \<open>None\<close> is a property never set. A length
  \<^verbatim>\<open>x + "px"\<close> is kept as the number \<open>x\<close>.
\<close>

record style =
  position :: "string option"
  transition :: "string option"
  top_px :: "number option"
  left_px :: "number option"
  transform :: "(number \<times> number) option"
  height_px :: "rat option"

text \<open>
  An element: its identity (the key of \<^verbatim>\<open>Set\<close> membership), its class name, what
  \<^verbatim>\<open>getBoundingClientRect()\<close> measures, and its style. The container has
  \<^verbatim>\<open>children\<close> besides.
\<close>

record node =
  ident :: nat
  className :: string
  rectWidth :: rat
  rectHeight :: rat
  style :: style

record element = node +
  children :: "node list"

subsection \<open>The object\<close>

text \<open>
  The fields the constructor sets. \<open>container\<close> is \<open>None\<close> when it is \<^verbatim>\<open>null\<close>;
  \<open>size_items\<close> is \<^verbatim>\<open>this.size\<close> (\<open>None\<close> when \<^verbatim>\<open>config.items\<close> is undefined),
  \<open>maxColumns\<close> is \<open>None\<close> when it is \<^verbatim>\<open>false\<close>, \<open>onReady\<close> says whether a callback
  is there.
\<close>

record MagicGrid =
  container :: "element option"
  containerClass :: string
  static :: bool
  size_items :: "nat option"
  gutter :: rat
  maxColumns :: "int option"
  useMin :: bool
  useTransform :: bool
  animate :: bool
  center :: bool
  onReady :: bool
  styledItems :: "nat set"

text \<open>A column of one layout pass: \<^verbatim>\<open>{height: 0, index: i}\<close>.\<close>

record col =
  height :: rat
  index :: nat

subsection \<open>Reading the container\<close>

text \<open>\<^verbatim>\<open>items ()\<close>: \<^verbatim>\<open>this.container.children\<close>, a TypeError on \<^verbatim>\<open>null\<close>.\<close>

definition items :: "MagicGrid \<Rightarrow> node list result" where
  "items g = (case container g of None \<Rightarrow> Throw TypeError | Some c \<Rightarrow> Return (children c))"

text \<open>
  \<^verbatim>\<open>colWidth ()\<close>: \<^verbatim>\<open>this.items()[0].getBoundingClientRect().width + this.gutter\<close>;
  \<^verbatim>\<open>items()[0]\<close> is undefined in an empty collection, and the call on it throws.
\<close>

definition colWidth :: "MagicGrid \<Rightarrow> rat result" where
  "colWidth g =
     (case items g of
        Throw e \<Rightarrow> Throw e
      | Diverge \<Rightarrow> Diverge
      | Return its \<Rightarrow>
          (case its of [] \<Rightarrow> Throw TypeError | it # _ \<Rightarrow> Return (rectWidth it + gutter g)))"

text \<open>
  \<^verbatim>\<open>ready ()\<close>: true under \<^verbatim>\<open>static\<close>, else \<^verbatim>\<open>this.items().length >= this.size\<close>
  (false against an undefined size).
\<close>

definition ready :: "MagicGrid \<Rightarrow> bool result" where
  "ready g =
     (if static g then Return True
      else (case items g of
              Throw e \<Rightarrow> Throw e
            | Diverge \<Rightarrow> Diverge
            | Return its \<Rightarrow>
                Return (case size_items g of None \<Rightarrow> False | Some n \<Rightarrow> n \<le> length its)))"

subsection \<open>setup\<close>

text \<open>
  (\<^verbatim>\<open>setup\<close> is written \<open>setup_js\<close>: the bare name is a command of Isabelle.)

  The loop \<^verbatim>\<open>for (let i = 0; i < numCols; i++) cols[i] = {height: 0, index: i}\<close>:
  it makes the columns \<open>0, 1, ...\<close> below \<^verbatim>\<open>numCols\<close>, none for a count that is not
  positive or is \<^verbatim>\<open>NaN\<close>, and does not end for \<^verbatim>\<open>Infinity\<close> (\<open>None\<close>).
\<close>

definition newCols :: "nat \<Rightarrow> col list" where
  "newCols n = map (\<lambda>i. \<lparr>height = 0, index = i\<rparr>) [0 ..< n]"

fun makeCols :: "number \<Rightarrow> col list option" where
  "makeCols (Num n) = Some (newCols (nat \<lceil>n\<rceil>))"
| "makeCols PosInfinity = None"
| "makeCols NegInfinity = Some []"
| "makeCols NaN = Some []"

text \<open>
  \<^verbatim>\<open>if (this.maxColumns && numCols > this.maxColumns) numCols = this.maxColumns\<close>
\<close>

definition clampCols :: "int option \<Rightarrow> number \<Rightarrow> number" where
  "clampCols mc numCols =
     (case mc of
        None \<Rightarrow> numCols
      | Some m \<Rightarrow> if m \<noteq> 0 \<and> gt_js numCols (Num (of_int m)) then Num (of_int m) else numCols)"

definition setup_js :: "MagicGrid \<Rightarrow> (col list \<times> number) result" where
  "setup_js g =
     (case container g of
        None \<Rightarrow> Throw TypeError
      | Some c \<Rightarrow>
          (let width = rectWidth c in
           case colWidth g of
             Throw e \<Rightarrow> Throw e
           | Diverge \<Rightarrow> Diverge
           | Return cw \<Rightarrow>
               (let numCols = or_js (floor_js (div_js (Num (width + gutter g)) (Num cw))) (Num 1);
                    numCols = clampCols (maxColumns g) numCols
                in case makeCols numCols of
                     None \<Rightarrow> Diverge
                   | Some cols \<Rightarrow>
                       Return (cols,
                         add_js (sub_js (Num width) (mul_js numCols (Num cw)))
                           (Num (gutter g))))))"

subsection \<open>nextCol\<close>

text \<open>
  Modelled from the spec: \<^verbatim>\<open>getMin\<close> of \<^verbatim>\<open>./utils\<close>, which is not among the sources.
  The spec: "return the column with the strictly smallest current height; tie-break by
  lowest index (first occurrence wins when scanning in index order)". The column is
  returned as its place in the array (the object itself in the source); of no columns
  there is none.
\<close>

fun getMin_scan :: "col list \<Rightarrow> nat \<Rightarrow> nat \<Rightarrow> col list \<Rightarrow> nat" where
  "getMin_scan cols m j [] = m"
| "getMin_scan cols m j (c # cs) =
     getMin_scan cols (if height c < height (cols ! m) then j else m) (Suc j) cs"

definition getMin :: "col list \<Rightarrow> nat option" where
  "getMin cols = (if cols = [] then None else Some (getMin_scan cols 0 0 cols))"

text \<open>
  \<^verbatim>\<open>nextCol (cols, i)\<close>: the column chosen, as its place in \<open>cols\<close>; \<open>None\<close> is
  \<^verbatim>\<open>undefined\<close> (\<^verbatim>\<open>i % 0\<close> is \<^verbatim>\<open>NaN\<close>, and \<^verbatim>\<open>cols[NaN]\<close> is undefined).
\<close>

definition nextCol :: "MagicGrid \<Rightarrow> col list \<Rightarrow> nat \<Rightarrow> nat option" where
  "nextCol g cols i =
     (if useMin g then getMin cols
      else if cols = [] then None else Some (i mod length cols))"

subsection \<open>initStyles\<close>

text \<open>
  The loop of \<^verbatim>\<open>initStyles\<close>: an item already in \<^verbatim>\<open>styledItems\<close> is skipped, another gets
  \<^verbatim>\<open>position: absolute\<close>, a transition under \<^verbatim>\<open>animate\<close>, and joins the set.
\<close>

fun styleLoop :: "MagicGrid \<Rightarrow> nat set \<Rightarrow> node list \<Rightarrow> node list \<times> nat set" where
  "styleLoop g s [] = ([], s)"
| "styleLoop g s (it # its) =
     (if ident it \<in> s then (let (its', s') = styleLoop g s its in (it # its', s'))
      else
        (let st = (style it)\<lparr>position := Some ''absolute''\<rparr>;
             st = (if animate g
                   then st\<lparr>transition :=
                     Some ((if useTransform g then ''transform'' else ''top, left'') @ '' 0.2s ease'')\<rparr>
                   else st);
             (its', s') = styleLoop g (insert (ident it) s) its
         in (it\<lparr>style := st\<rparr> # its', s')))"

definition initStyles :: "MagicGrid \<Rightarrow> unit result \<times> MagicGrid" where
  "initStyles g =
     (case ready g of
        Throw e \<Rightarrow> (Throw e, g)
      | Diverge \<Rightarrow> (Diverge, g)
      | Return False \<Rightarrow> (Return (), g)
      | Return True \<Rightarrow>
          (case container g of
             None \<Rightarrow> (Throw TypeError, g)
           | Some c \<Rightarrow>
               (let c = c\<lparr>style := (style c)\<lparr>position := Some ''relative''\<rparr>\<rparr>;
                    (its, s) = styleLoop g (styledItems g) (children c)
                in (Return (), g\<lparr>container := Some (c\<lparr>children := its\<rparr>), styledItems := s\<rparr>))))"

subsection \<open>positionItems\<close>

text \<open>
  \<^verbatim>\<open>wSpace = this.center ? Math.floor(wSpace / 2) : 0\<close>
\<close>

definition centerOffset :: "MagicGrid \<Rightarrow> number \<Rightarrow> number" where
  "centerOffset g wSpace = (if center g then floor_js (div_js wSpace (Num 2)) else Num 0)"

text \<open>
  The body of the loop, for one item and the column chosen for it:
  \<^verbatim>\<open>topGutter = col.height ? this.gutter : 0\<close>, the style written to the item (\<open>position\<close>),
  and \<^verbatim>\<open>col.height += item.getBoundingClientRect().height + topGutter\<close> (\<open>grow\<close>).
\<close>

definition topGutter :: "MagicGrid \<Rightarrow> col \<Rightarrow> rat" where
  "topGutter g col = (if height col \<noteq> 0 then gutter g else 0)"

definition position_item :: "MagicGrid \<Rightarrow> rat \<Rightarrow> number \<Rightarrow> col \<Rightarrow> node \<Rightarrow> node" where
  "position_item g cw wSpace col item =
     (let left = add_js (Num (of_nat (index col) * cw)) wSpace;
          topPx = Num (height col + topGutter g col)
      in if useTransform g then item\<lparr>style := (style item)\<lparr>transform := Some (left, topPx)\<rparr>\<rparr>
         else item\<lparr>style := (style item)\<lparr>top_px := Some topPx, left_px := Some left\<rparr>\<rparr>)"

definition grow :: "MagicGrid \<Rightarrow> col \<Rightarrow> node \<Rightarrow> col" where
  "grow g col item = col\<lparr>height := height col + (rectHeight item + topGutter g col)\<rparr>"

text \<open>
  The loop over the items, from item \<open>i\<close> on. Its state is the columns and
  \<^verbatim>\<open>maxHeight\<close>; the items come back with their new styles. Reading \<^verbatim>\<open>col.height\<close> of
  an undefined column throws, and the items before keep what was written to them.
\<close>

fun positionLoop ::
  "MagicGrid \<Rightarrow> rat \<Rightarrow> number \<Rightarrow> nat \<Rightarrow> node list \<Rightarrow> col list \<Rightarrow> rat
    \<Rightarrow> unit result \<times> node list \<times> col list \<times> rat" where
  "positionLoop g cw wSpace i [] cols maxHeight = (Return (), [], cols, maxHeight)"
| "positionLoop g cw wSpace i (item # rest) cols maxHeight =
     (case nextCol g cols i of
        None \<Rightarrow> (Throw TypeError, item # rest, cols, maxHeight)
      | Some k \<Rightarrow>
          (let item' = position_item g cw wSpace (cols ! k) item;
               col' = grow g (cols ! k) item;
               cols' = cols[k := col'];
               maxHeight' = (if height col' > maxHeight then height col' else maxHeight);
               (r, rest', cols'', maxHeight'') =
                  positionLoop g cw wSpace (Suc i) rest cols' maxHeight'
           in (r, item' # rest', cols'', maxHeight'')))"

text \<open>
  \<^verbatim>\<open>positionItems ()\<close>. \<^verbatim>\<open>items\<close> is the live collection of the container, so the loop
  runs over the children as \<^verbatim>\<open>initStyles\<close> left them. The container's height is written
  only when the loop has ended.
\<close>

definition positionItems :: "MagicGrid \<Rightarrow> unit result \<times> MagicGrid" where
  "positionItems g =
     (case setup_js g of
        Throw e \<Rightarrow> (Throw e, g)
      | Diverge \<Rightarrow> (Diverge, g)
      | Return (cols, wSpace) \<Rightarrow>
          (case colWidth g of
             Throw e \<Rightarrow> (Throw e, g)
           | Diverge \<Rightarrow> (Diverge, g)
           | Return cw \<Rightarrow>
               (case initStyles g of
                  (Throw e, g1) \<Rightarrow> (Throw e, g1)
                | (Diverge, g1) \<Rightarrow> (Diverge, g1)
                | (Return _, g1) \<Rightarrow>
                    (case container g1 of
                       None \<Rightarrow> (Throw TypeError, g1)
                     | Some c \<Rightarrow>
                         (case positionLoop g1 cw (centerOffset g wSpace) 0 (children c) cols 0 of
                            (Return _, its, cols', maxHeight) \<Rightarrow>
                              (Return (),
                               g1\<lparr>container := Some (c\<lparr>children := its,
                                 style := (style c)\<lparr>height_px := Some (maxHeight + gutter g)\<rparr>\<rparr>)\<rparr>)
                          | (r, its, cols', maxHeight) \<Rightarrow>
                              (r, g1\<lparr>container := Some (c\<lparr>children := its\<rparr>)\<rparr>))))))"

subsection \<open>What a pass does, item by item\<close>

text \<open>
  The run of the loop seen from outside: for each item placed, the column chosen for it
  and the columns as they were just before and just after. It follows the loop of
  \<^verbatim>\<open>positionItems\<close> (\<open>nextCol\<close>, then \<open>grow\<close>) and stops where the loop throws.
\<close>

fun trace :: "MagicGrid \<Rightarrow> nat \<Rightarrow> node list \<Rightarrow> col list \<Rightarrow> (nat \<times> col list \<times> col list) list" where
  "trace g i [] cols = []"
| "trace g i (item # rest) cols =
     (case nextCol g cols i of
        None \<Rightarrow> []
      | Some k \<Rightarrow>
          (let cols' = cols[k := grow g (cols ! k) item]
           in (k, cols, cols') # trace g (Suc i) rest cols'))"

text \<open>Where an item was put: \<^verbatim>\<open>style.left\<close> and \<^verbatim>\<open>style.top\<close>, or the translation.\<close>

definition placedLeft :: "MagicGrid \<Rightarrow> node \<Rightarrow> number option" where
  "placedLeft g item =
     (if useTransform g then map_option fst (transform (style item)) else left_px (style item))"

definition placedTop :: "MagicGrid \<Rightarrow> node \<Rightarrow> number option" where
  "placedTop g item =
     (if useTransform g then map_option snd (transform (style item)) else top_px (style item))"

text \<open>
  The trace of the loop of a whole pass: the columns are those of \<^verbatim>\<open>setup\<close>, the items
  those of the container (of an item the loop reads the measured height only).
\<close>

definition passTrace :: "MagicGrid \<Rightarrow> (nat \<times> col list \<times> col list) list" where
  "passTrace g =
     (case setup_js g of
        Return (cols, wSpace) \<Rightarrow> (case items g of Return its \<Rightarrow> trace g 0 its cols | _ \<Rightarrow> [])
      | _ \<Rightarrow> [])"

subsection \<open>The constructor\<close>

text \<open>
  The configuration object. \<^verbatim>\<open>config.container\<close> is an element or a selector string;
  a field that may be absent is an option. The flags are read for their truth value only.
\<close>

datatype containerRef = Element element | Selector string

record config =
  config_container :: "containerRef option"
  config_items :: "nat option"
  config_gutter :: "rat option"
  config_static :: bool
  config_maxColumns :: "int option"
  config_useMin :: bool
  config_useTransform :: bool
  config_animate :: bool
  config_center :: bool
  config_onReady :: bool

text \<open>
  Modelled from the spec: \<^verbatim>\<open>checkParams\<close> of \<^verbatim>\<open>./utils\<close>, which is not among the sources.
  The spec: the constructor "fails with a ConfigurationError if required fields
  (container reference, gutter) are missing or malformed".
\<close>

definition checkParams :: "config \<Rightarrow> unit result" where
  "checkParams cfg =
     (if config_container cfg = None \<or> config_gutter cfg = None then Throw ConfigurationError
      else Return ())"

text \<open>
  What the host schedules for the grid: the polling intervals that are set and not
  cleared; for each resize listener added, its variable \<^verbatim>\<open>timeout\<close> (\<open>None\<close> while it is
  undefined or \<^verbatim>\<open>null\<close>, else the handle of a timer, kept as the time the timer is due);
  the timers set by \<^verbatim>\<open>setTimeout\<close> that have not fired, each with its listener and the time
  it is due (in milliseconds); and how often \<^verbatim>\<open>onReady\<close> was called.
\<close>

record host =
  intervals :: nat
  listeners :: "nat option list"
  timers :: "(nat \<times> nat) list"
  readyCalls :: nat

text \<open>
  \<^verbatim>\<open>constructor (config)\<close>, in a document whose \<^verbatim>\<open>querySelector\<close> is \<open>doc\<close>. The host is
  passed through: the constructor calls \<^verbatim>\<open>checkParams\<close>, sets the fields and calls
  \<^verbatim>\<open>initStyles\<close>, and nothing else. The two \<open>None\<close> cases after \<^verbatim>\<open>checkParams\<close> are
  those in which it has thrown.
\<close>

definition constructor ::
  "(string \<Rightarrow> element option) \<Rightarrow> config \<Rightarrow> host \<Rightarrow> MagicGrid result \<times> host" where
  "constructor doc cfg h =
     (case checkParams cfg of
        Throw e \<Rightarrow> (Throw e, h)
      | Diverge \<Rightarrow> (Diverge, h)
      | Return _ \<Rightarrow>
          (case (config_container cfg, config_gutter cfg) of
             (Some r, Some gut) \<Rightarrow>
               (let g = \<lparr>container = (case r of Element e \<Rightarrow> Some e | Selector sel \<Rightarrow> doc sel),
                         containerClass = (case r of Element e \<Rightarrow> className e | Selector sel \<Rightarrow> sel),
                         static = config_static cfg,
                         size_items = config_items cfg,
                         gutter = gut,
                         maxColumns = (case config_maxColumns cfg of
                                         None \<Rightarrow> None
                                       | Some m \<Rightarrow> if m = 0 then None else Some m),
                         useMin = config_useMin cfg,
                         useTransform = config_useTransform cfg,
                         animate = config_animate cfg,
                         center = config_center cfg,
                         onReady = config_onReady cfg,
                         styledItems = {}\<rparr>
                in case initStyles g of
                     (Return _, g') \<Rightarrow> (Return g', h)
                   | (Throw e, g') \<Rightarrow> (Throw e, h)
                   | (Diverge, g') \<Rightarrow> (Diverge, h))
           | _ \<Rightarrow> (Throw ConfigurationError, h)))"

subsection \<open>getReady and listen\<close>

text \<open>\<^verbatim>\<open>getReady ()\<close> sets the polling interval and returns.\<close>

definition getReady :: "MagicGrid \<times> host \<Rightarrow> unit result \<times> MagicGrid \<times> host" where
  "getReady w = (case w of (g, h) \<Rightarrow> (Return (), g, h\<lparr>intervals := intervals h + 1\<rparr>))"

text \<open>
  \<^verbatim>\<open>listen ()\<close>: when ready, it adds the resize listener (its \<^verbatim>\<open>timeout\<close> undefined), runs
  \<^verbatim>\<open>positionItems\<close> and calls \<^verbatim>\<open>onReady\<close> if there is one; else it calls \<^verbatim>\<open>getReady\<close>.
\<close>

definition listen :: "MagicGrid \<times> host \<Rightarrow> unit result \<times> MagicGrid \<times> host" where
  "listen w =
     (case w of (g, h) \<Rightarrow>
        (case ready g of
           Throw e \<Rightarrow> (Throw e, g, h)
         | Diverge \<Rightarrow> (Diverge, g, h)
         | Return False \<Rightarrow> getReady (g, h)
         | Return True \<Rightarrow>
             (let h1 = h\<lparr>listeners := listeners h @ [None]\<rparr> in
              case positionItems g of
                (Return _, g') \<Rightarrow>
                  (Return (), g', if onReady g' then h1\<lparr>readyCalls := readyCalls h1 + 1\<rparr> else h1)
              | (r, g') \<Rightarrow> (r, g', h1))))"

text \<open>
  One run of the callback that \<^verbatim>\<open>getReady\<close> gave to \<^verbatim>\<open>setInterval\<close>; \<open>q\<close> is what
  \<^verbatim>\<open>document.querySelector(this.containerClass)\<close> returns at that moment. The host runs it
  only while an interval is set. An exception leaves the callback before
  \<^verbatim>\<open>clearInterval\<close>, so the interval stays.
\<close>

definition tick :: "element option \<Rightarrow> MagicGrid \<times> host \<Rightarrow> unit result \<times> MagicGrid \<times> host" where
  "tick q w =
     (case w of (g, h) \<Rightarrow>
        if intervals h = 0 then (Return (), g, h)
        else
          (let g1 = g\<lparr>container := q\<rparr> in
           case ready g1 of
             Throw e \<Rightarrow> (Throw e, g1, h)
           | Diverge \<Rightarrow> (Diverge, g1, h)
           | Return False \<Rightarrow> (Return (), g1, h)
           | Return True \<Rightarrow> listen (g1, h\<lparr>intervals := intervals h - 1\<rparr>)))"

subsection \<open>The resize listener\<close>

text \<open>
  The listener \<open>k\<close> on a resize notification at time \<open>t\<close>:
  \<^verbatim>\<open>if (!timeout) timeout = setTimeout(..., 200)\<close>.
\<close>

definition onResize :: "nat \<Rightarrow> nat \<Rightarrow> host \<Rightarrow> host" where
  "onResize t k h =
     (if k < length (listeners h) \<and> listeners h ! k = None
      then h\<lparr>listeners := (listeners h)[k := Some (t + 200)], timers := timers h @ [(k, t + 200)]\<rparr>
      else h)"

text \<open>A resize notification reaches every listener, in the order they were added.\<close>

definition resize :: "nat \<Rightarrow> host \<Rightarrow> host" where
  "resize t h = fold (onResize t) [0 ..< length (listeners h)] h"

text \<open>
  The callback of the timer of listener \<open>k\<close> due at \<open>d\<close>, run by the host when the timer
  fires: \<^verbatim>\<open>this.positionItems(); timeout = null\<close>. When \<^verbatim>\<open>positionItems\<close> throws, the
  assignment is not reached.
\<close>

definition fire :: "nat \<Rightarrow> nat \<Rightarrow> MagicGrid \<times> host \<Rightarrow> unit result \<times> MagicGrid \<times> host" where
  "fire k d w =
     (case w of (g, h) \<Rightarrow>
        if (k, d) \<notin> set (timers h) then (Return (), g, h)
        else
          (let h1 = h\<lparr>timers := remove1 (k, d) (timers h)\<rparr> in
           case positionItems g of
             (Return _, g') \<Rightarrow> (Return (), g', h1\<lparr>listeners := (listeners h1)[k := None]\<rparr>)
           | (r, g') \<Rightarrow> (r, g', h1)))"

text \<open>
  The host up to time \<open>t\<close>: the timers due by then fire, the oldest first; an exception
  of a callback is the host's to report and does not stop the others.
\<close>

definition fireDue :: "nat \<Rightarrow> MagicGrid \<times> host \<Rightarrow> MagicGrid \<times> host" where
  "fireDue t w =
     fold (\<lambda>(k, d) w. if d \<le> t then snd (fire k d w) else w) (timers (snd w)) w"

text \<open>A resize notification at time \<open>t\<close>, and a run of them.\<close>

definition notify :: "nat \<Rightarrow> MagicGrid \<times> host \<Rightarrow> MagicGrid \<times> host" where
  "notify t w = (case fireDue t w of (g, h) \<Rightarrow> (g, resize t h))"

definition burst :: "nat list \<Rightarrow> MagicGrid \<times> host \<Rightarrow> MagicGrid \<times> host" where
  "burst ts w = fold notify ts w"

definition idle :: host where
  "idle = \<lparr>intervals = 0, listeners = [], timers = [], readyCalls = 0\<rparr>"

subsection \<open>Other measurements\<close>

text \<open>
  The same grid under other measured widths of its items: \<open>withWidths f\<close> makes the item
  at place \<open>j\<close> (from 0 on) \<open>f j\<close> wide; \<open>otherWidths f\<close> does so for all items but the
  first, which it leaves as it is.
\<close>

fun reWidth :: "(nat \<Rightarrow> rat) \<Rightarrow> nat \<Rightarrow> node list \<Rightarrow> node list" where
  "reWidth f j [] = []"
| "reWidth f j (n # ns) = n\<lparr>rectWidth := f j\<rparr> # reWidth f (Suc j) ns"

definition withWidths :: "(nat \<Rightarrow> rat) \<Rightarrow> MagicGrid \<Rightarrow> MagicGrid" where
  "withWidths f g =
     g\<lparr>container := map_option (\<lambda>c. c\<lparr>children := reWidth f 0 (children c)\<rparr>) (container g)\<rparr>"

definition otherWidths :: "(nat \<Rightarrow> rat) \<Rightarrow> MagicGrid \<Rightarrow> MagicGrid" where
  "otherWidths f g =
     (case container g of
        None \<Rightarrow> g
      | Some c \<Rightarrow>
          (case children c of
             [] \<Rightarrow> g
           | it # rest \<Rightarrow> g\<lparr>container := Some (c\<lparr>children := it # reWidth f 1 rest\<rparr>)\<rparr>))"

subsection \<open>The scenario of the specification\<close>

definition noStyle :: style where
  "noStyle = \<lparr>position = None, transition = None, top_px = None, left_px = None,
     transform = None, height_px = None\<rparr>"

definition box :: "nat \<Rightarrow> rat \<Rightarrow> rat \<Rightarrow> node" where
  "box i w h = \<lparr>ident = i, className = [], rectWidth = w, rectHeight = h, style = noStyle\<rparr>"

definition grid_of :: "rat \<Rightarrow> rat \<Rightarrow> node list \<Rightarrow> MagicGrid" where
  "grid_of w gut its =
     \<lparr>container = Some \<lparr>ident = 0, className = ''grid'', rectWidth = w, rectHeight = 0,
        style = noStyle, children = its\<rparr>,
      containerClass = ''.grid'', static = True, size_items = None, gutter = gut,
      maxColumns = None, useMin = False, useTransform = False, animate = False,
      center = False, onReady = False, styledItems = {}\<rparr>"

definition scenario_items :: "node list" where
  "scenario_items = [box 1 90 50, box 2 90 80, box 3 90 30, box 4 90 60, box 5 90 40]"

definition scenario :: MagicGrid where
  "scenario = grid_of 300 10 scenario_items"

text \<open>
  The same container seen from the page and from a configuration: \<open>page\<close> is a document
  whose \<^verbatim>\<open>querySelector\<close> finds the container under \<^verbatim>\<open>.grid\<close> and nothing else;
  \<open>waiting\<close> is the object made from the container element itself when six items are
  expected and five are there.
\<close>

definition grid_element :: element where
  "grid_element = \<lparr>ident = 0, className = ''grid'', rectWidth = 300, rectHeight = 0,
     style = noStyle, children = scenario_items\<rparr>"

definition page :: "string \<Rightarrow> element option" where
  "page sel = (if sel = ''.grid'' then Some grid_element else None)"

definition config_of :: "containerRef \<Rightarrow> bool \<Rightarrow> nat option \<Rightarrow> config" where
  "config_of r st n =
     \<lparr>config_container = Some r, config_items = n, config_gutter = Some 10, config_static = st,
      config_maxColumns = None, config_useMin = False, config_useTransform = False,
      config_animate = False, config_center = False, config_onReady = False\<rparr>"

definition waiting :: MagicGrid where
  "waiting = scenario\<lparr>containerClass := ''grid'', static := False, size_items := Some 6\<rparr>"

section \<open>Lemmas on the embedding\<close>

subsection \<open>Choosing a column\<close>

lemma getMin_scan_less:
  "m < length cols \<Longrightarrow> j + length cs = length cols \<Longrightarrow> getMin_scan cols m j cs < length cols"
  by (induction cs arbitrary: m j) auto

lemma nextCol_less: "nextCol g cols i = Some k \<Longrightarrow> k < length cols"
  by (auto simp: nextCol_def getMin_def getMin_scan_less split: if_splits)

lemma nextCol_None: "nextCol g cols i = None \<longleftrightarrow> cols = []"
  by (auto simp: nextCol_def getMin_def)

lemma length_newCols: "length (newCols n) = n"
  by (simp add: newCols_def)

subsection \<open>The loop of positionItems\<close>

lemma positionLoop_Cons:
  "nextCol g cols i = Some k \<Longrightarrow>
     positionLoop g cw ws i (item # rest) cols mh =
       (let R = positionLoop g cw ws (Suc i) rest (cols[k := grow g (cols ! k) item])
                  (max mh (height (grow g (cols ! k) item)))
        in (fst R, position_item g cw ws (cols ! k) item # fst (snd R), fst (snd (snd R)),
            snd (snd (snd R))))"
  by (simp add: Let_def split_beta max_def not_less)

lemma nextCol_Some: "cols \<noteq> [] \<Longrightarrow> \<exists>k. nextCol g cols i = Some k \<and> k < length cols"
  using nextCol_None[of g cols i] nextCol_less[of g cols i] by (cases "nextCol g cols i") auto

lemma positionLoop_length:
  "length (fst (snd (positionLoop g cw ws i its cols mh))) = length its
   \<and> length (fst (snd (snd (positionLoop g cw ws i its cols mh)))) = length cols"
proof (induction its arbitrary: i cols mh)
  case Nil
  then show ?case by simp
next
  case (Cons item rest)
  show ?case
  proof (cases "nextCol g cols i")
    case None
    then show ?thesis by simp
  next
    case (Some k)
    show ?thesis
      using Cons.IH by (simp add: positionLoop_Cons[OF Some] Let_def del: positionLoop.simps)
  qed
qed

lemma positionLoop_no_cols:
  "positionLoop g cw ws i (item # rest) [] mh = (Throw TypeError, item # rest, [], mh)"
  by (simp add: nextCol_def getMin_def)

lemma positionLoop_nth:
  "cols \<noteq> [] \<Longrightarrow> n < length its \<Longrightarrow>
     \<exists>k before after. trace g i its cols ! n = (k, before, after)
        \<and> k < length before \<and> nextCol g before (i + n) = Some k
        \<and> after = before[k := grow g (before ! k) (its ! n)]
        \<and> fst (snd (positionLoop g cw ws i its cols mh)) ! n
            = position_item g cw ws (before ! k) (its ! n)"
proof (induction its arbitrary: i cols mh n)
  case Nil
  then show ?case by simp
next
  case (Cons item rest)
  then obtain k where k: "nextCol g cols i = Some k"
    using nextCol_None[of g cols i] by (cases "nextCol g cols i") auto
  have kl: "k < length cols" using k by (rule nextCol_less)
  have ne: "cols[k := grow g (cols ! k) item] \<noteq> []" using Cons.prems by simp
  show ?case
  proof (cases n)
    case 0
    then show ?thesis using kl
      by (simp add: positionLoop_Cons[OF k] k Let_def del: positionLoop.simps)
  next
    case (Suc m)
    then have m: "m < length rest" using Cons.prems by simp
    from Cons.IH[OF ne m, of "Suc i"] show ?thesis using Suc
      by (simp add: positionLoop_Cons[OF k] k Let_def del: positionLoop.simps)
  qed
qed

subsection \<open>What the loops leave alone\<close>

lemma trace_untouched:
  "cols \<noteq> [] \<Longrightarrow> n < length its \<Longrightarrow> j \<notin> fst ` set (take n (trace g i its cols)) \<Longrightarrow>
     fst (snd (trace g i its cols ! n)) ! j = cols ! j"
proof (induction its arbitrary: i cols n)
  case Nil
  then show ?case by simp
next
  case (Cons item rest)
  obtain k where k: "nextCol g cols i = Some k" and kl: "k < length cols"
    using nextCol_Some[OF Cons.prems(1)] by blast
  have ne: "cols[k := grow g (cols ! k) item] \<noteq> []" using Cons.prems by simp
  show ?case
  proof (cases n)
    case 0
    then show ?thesis using k by (simp add: Let_def)
  next
    case (Suc m)
    then have m: "m < length rest" using Cons.prems by simp
    have jk: "j \<noteq> k" and nin: "j \<notin> fst ` set (take m (trace g (Suc i) rest (cols[k := grow g (cols ! k) item])))"
      using Cons.prems(3) k Suc by (auto simp: Let_def)
    from Cons.IH[OF ne m nin] show ?thesis using k Suc jk by (simp add: Let_def)
  qed
qed

lemma styleLoop_fields:
  "map ident (fst (styleLoop g s its)) = map ident its
   \<and> map rectWidth (fst (styleLoop g s its)) = map rectWidth its
   \<and> map rectHeight (fst (styleLoop g s its)) = map rectHeight its"
  by (induction its arbitrary: s) (simp_all add: split_beta Let_def)

lemma styleLoop_covers:
  "s \<subseteq> snd (styleLoop g s its) \<and> ident ` set its \<subseteq> snd (styleLoop g s its)"
proof (induction its arbitrary: s)
  case Nil
  then show ?case by simp
next
  case (Cons it its)
  from Cons.IH[of s] Cons.IH[of "insert (ident it) s"] show ?case
    by (auto simp: split_beta Let_def)
qed

lemma styleLoop_skip: "ident ` set its \<subseteq> s \<Longrightarrow> styleLoop g s its = (its, s)"
  by (induction its) (simp_all add: split_beta Let_def)

lemma position_item_fields:
  "ident (position_item g cw ws col item) = ident item"
  "rectWidth (position_item g cw ws col item) = rectWidth item"
  "rectHeight (position_item g cw ws col item) = rectHeight item"
  by (simp_all add: position_item_def Let_def)

lemma position_item_again:
  "position_item g cw ws col (position_item g cw ws col item) = position_item g cw ws col item"
  by (simp add: position_item_def Let_def)

lemma grow_position_item: "grow g col (position_item g2 cw ws col2 item) = grow g col item"
  by (simp add: grow_def position_item_fields)

lemma positionLoop_fields:
  "map ident (fst (snd (positionLoop g cw ws i its cols mh))) = map ident its
   \<and> map rectWidth (fst (snd (positionLoop g cw ws i its cols mh))) = map rectWidth its
   \<and> map rectHeight (fst (snd (positionLoop g cw ws i its cols mh))) = map rectHeight its"
proof (induction its arbitrary: i cols mh)
  case Nil
  then show ?case by simp
next
  case (Cons item rest)
  show ?case
  proof (cases "nextCol g cols i")
    case None
    then show ?thesis by simp
  next
    case (Some k)
    show ?thesis using Cons.IH
      by (simp add: positionLoop_Cons[OF Some] Let_def position_item_fields del: positionLoop.simps)
  qed
qed

lemma positionLoop_again:
  "positionLoop g cw ws i (fst (snd (positionLoop g cw ws i its cols mh))) cols mh
     = positionLoop g cw ws i its cols mh"
proof (induction its arbitrary: i cols mh)
  case Nil
  then show ?case by simp
next
  case (Cons item rest)
  show ?case
  proof (cases "nextCol g cols i")
    case None
    then show ?thesis by simp
  next
    case (Some k)
    show ?thesis using Cons.IH
      by (simp add: positionLoop_Cons[OF Some] Let_def position_item_again grow_position_item
            del: positionLoop.simps)
  qed
qed

lemma positionLoop_cong:
  "useMin g2 = useMin g \<Longrightarrow> useTransform g2 = useTransform g \<Longrightarrow> gutter g2 = gutter g \<Longrightarrow>
     positionLoop g2 cw ws i its cols mh = positionLoop g cw ws i its cols mh"
proof (induction its arbitrary: i cols mh)
  case Nil
  then show ?case by simp
next
  case (Cons item rest)
  have nc: "nextCol g2 cols i = nextCol g cols i" using Cons.prems by (simp add: nextCol_def)
  have pi: "\<And>col. position_item g2 cw ws col item = position_item g cw ws col item"
    using Cons.prems by (simp add: position_item_def topGutter_def)
  have gr: "\<And>col. grow g2 col item = grow g col item"
    using Cons.prems by (simp add: grow_def topGutter_def)
  show ?case
  proof (cases "nextCol g cols i")
    case None
    then show ?thesis using nc by simp
  next
    case (Some k)
    have Some2: "nextCol g2 cols i = Some k" using nc Some by simp
    show ?thesis
      by (simp only: positionLoop_Cons[OF Some] positionLoop_Cons[OF Some2] pi gr Cons.IH[OF Cons.prems])
  qed
qed

subsection \<open>Other widths\<close>

lemma styleLoop_reWidth:
  "styleLoop g s (reWidth f j its) = (reWidth f j (fst (styleLoop g s its)), snd (styleLoop g s its))"
  by (induction its arbitrary: s j) (simp_all add: split_beta Let_def)

lemma position_item_reWidth:
  "position_item g cw ws col (item\<lparr>rectWidth := x\<rparr>) = (position_item g cw ws col item)\<lparr>rectWidth := x\<rparr>"
  by (simp add: position_item_def Let_def)

lemma grow_reWidth: "grow g col (item\<lparr>rectWidth := x\<rparr>) = grow g col item"
  by (simp add: grow_def)

lemma positionLoop_reWidth:
  "positionLoop g cw ws i (reWidth f j its) cols mh =
     (case positionLoop g cw ws i its cols mh of
        (r, its', cols', mh') \<Rightarrow> (r, reWidth f j its', cols', mh'))"
proof (induction its arbitrary: i j cols mh)
  case Nil
  then show ?case by simp
next
  case (Cons item rest)
  show ?case
  proof (cases "nextCol g cols i")
    case None
    then show ?thesis by simp
  next
    case (Some k)
    show ?thesis 
      by (simp add: positionLoop_Cons[OF Some] Cons.IH position_item_reWidth grow_reWidth split_beta Let_def
            del: positionLoop.simps)
  qed
qed

lemma length_reWidth: "length (reWidth f j its) = length its"
  by (induction its arbitrary: j) simp_all

lemma otherWidths_cases:
  obtains "otherWidths f g = g"
  | c it rest where "container g = Some c" "children c = it # rest"
      "otherWidths f g = g\<lparr>container := Some (c\<lparr>children := it # reWidth f 1 rest\<rparr>)\<rparr>"
  by (cases "container g"; cases "children (the (container g))") (auto simp: otherWidths_def)

lemma setup_js_cong:
  "container g = Some c \<Longrightarrow> container g2 = Some c2 \<Longrightarrow> rectWidth c2 = rectWidth c \<Longrightarrow>
   colWidth g2 = colWidth g \<Longrightarrow> gutter g2 = gutter g \<Longrightarrow> maxColumns g2 = maxColumns g \<Longrightarrow>
   setup_js g2 = setup_js g"
  by (simp add: setup_js_def cong: option.case_cong result.case_cong)

lemma setup_otherWidths: "setup_js (otherWidths f g) = setup_js g"
proof (cases rule: otherWidths_cases[of f g])
  case 1
  then show ?thesis by simp
next
  case (2 c it rest)
  show ?thesis
  proof (rule setup_js_cong[OF 2(1)])
    show "container (otherWidths f g) = Some (c\<lparr>children := it # reWidth f 1 rest\<rparr>)"
      by (simp add: 2)
  qed (simp_all add: 2 colWidth_def items_def)
qed

subsection \<open>initStyles\<close>

lemma ready_container: "container g = Some c \<Longrightarrow>
  ready g = Return (static g \<or> (case size_items g of None \<Rightarrow> False | Some n \<Rightarrow> n \<le> length (children c)))"
  by (simp add: ready_def items_def)

lemma ready_cong:
  "container g = Some c \<Longrightarrow> container g2 = Some c2 \<Longrightarrow> length (children c2) = length (children c) \<Longrightarrow>
   static g2 = static g \<Longrightarrow> size_items g2 = size_items g \<Longrightarrow> ready g2 = ready g"
  by (simp add: ready_container split: option.splits)

lemma style_position_same: "position s = p \<Longrightarrow> s\<lparr>position := p\<rparr> = (s::style)"
  by (cases s) simp

lemma styleLoop_cong:
  "animate g2 = animate g \<Longrightarrow> useTransform g2 = useTransform g \<Longrightarrow> styleLoop g2 s its = styleLoop g s its"
  by (induction its arbitrary: s) (simp_all add: split_beta Let_def)

lemma initStyles_not_ready: "ready g = Return False \<Longrightarrow> initStyles g = (Return (), g)"
  by (simp add: initStyles_def)

lemma initStyles_ready:
  "ready g = Return True \<Longrightarrow> container g = Some c \<Longrightarrow>
     initStyles g = (Return (),
       g\<lparr>container := Some (c\<lparr>style := (style c)\<lparr>position := Some ''relative''\<rparr>,
                               children := fst (styleLoop g (styledItems g) (children c))\<rparr>),
         styledItems := snd (styleLoop g (styledItems g) (children c))\<rparr>)"
  by (simp add: initStyles_def split_beta Let_def)

lemma initStyles_noop:
  assumes "container g = Some c" "ready g = Return True \<Longrightarrow> position (style c) = Some ''relative''"
    "ready g = Return True \<Longrightarrow> ident ` set (children c) \<subseteq> styledItems g"
  shows "initStyles g = (Return (), g)"
proof (cases "ready g = Return True")
  case True
  have c: "(style c)\<lparr>position := Some ''relative''\<rparr> = style c"
    using assms(2)[OF True] by (rule style_position_same)
  show ?thesis
    using assms(1) assms(3)[OF True]
    by (simp add: initStyles_ready[OF True assms(1)] styleLoop_skip c)
next
  case False
  then have "ready g = Return False" using ready_container[OF assms(1)] by auto
  then show ?thesis by (rule initStyles_not_ready)
qed

subsection \<open>Unfolding a pass\<close>

lemma positionItems_no_container: "container g = None \<Longrightarrow> positionItems g = (Throw TypeError, g)"
  by (simp add: positionItems_def setup_js_def)

lemma colWidth_Cons:
  "container g = Some c \<Longrightarrow> children c = it # rest \<Longrightarrow> colWidth g = Return (rectWidth it + gutter g)"
  by (simp add: colWidth_def items_def)

lemma positionItems_unfold:
  assumes "container g = Some c" "children c = it # rest" "initStyles g = (Return (), g1)"
    "container g1 = Some c1" "setup_js g = Return (cols, w)"
    "positionLoop g1 (rectWidth it + gutter g) (centerOffset g w) 0 (children c1) cols 0 = (r, its, cols', mh)"
  shows "positionItems g =
     (if r = Return ()
      then (Return (), g1\<lparr>container := Some (c1\<lparr>children := its,
              style := (style c1)\<lparr>height_px := Some (mh + gutter g)\<rparr>\<rparr>)\<rparr>)
      else (r, g1\<lparr>container := Some (c1\<lparr>children := its\<rparr>)\<rparr>))"
  using assms(3-6)
  by (cases r) (simp_all add: positionItems_def colWidth_Cons[OF assms(1,2)])

lemma initStyles_result:
  assumes c: "container g = Some c"
  obtains c1 s1 where "initStyles g = (Return (), g\<lparr>container := Some c1, styledItems := s1\<rparr>)"
    "rectWidth c1 = rectWidth c" "height_px (style c1) = height_px (style c)"
    "map ident (children c1) = map ident (children c)"
    "map rectWidth (children c1) = map rectWidth (children c)"
    "map rectHeight (children c1) = map rectHeight (children c)"
    "ready g = Return True \<Longrightarrow> position (style c1) = Some ''relative'' \<and> ident ` set (children c1) \<subseteq> s1"
proof (cases "ready g = Return True")
  case True
  let ?c1 = "c\<lparr>style := (style c)\<lparr>position := Some ''relative''\<rparr>,
                children := fst (styleLoop g (styledItems g) (children c))\<rparr>"
  let ?s1 = "snd (styleLoop g (styledItems g) (children c))"
  have idents: "ident ` set (children ?c1) \<subseteq> ?s1"
  proof -
    have "ident ` set (children ?c1) = set (map ident (children ?c1))" by simp
    also have "\<dots> = set (map ident (children c))" using styleLoop_fields[of g "styledItems g" "children c"] by simp
    also have "\<dots> \<subseteq> ?s1" using styleLoop_covers[of "styledItems g" g "children c"] by simp
    finally show ?thesis .
  qed
  show ?thesis
    by (rule that[where ?c1.0 = ?c1 and ?s1.0 = ?s1]) (use idents styleLoop_fields[of g "styledItems g" "children c"] in
        \<open>simp_all add: initStyles_ready[OF True c]\<close>)
next
  case False
  then have nr: "ready g = Return False" using ready_container[OF c] by auto
  have "g\<lparr>container := Some c, styledItems := styledItems g\<rparr> = g" using c by simp
  then show ?thesis using False
    by (intro that[where ?c1.0 = c and ?s1.0 = "styledItems g"]) (simp_all add: initStyles_not_ready[OF nr])
qed

subsection \<open>A second pass\<close>

lemma style_height_same: "height_px s = h \<Longrightarrow> s\<lparr>height_px := h\<rparr> = (s::style)"
  by (cases s) simp

lemma positionItems_stable:
  assumes c: "container g = Some c" and its: "children c = it # rest"
    and st: "initStyles g = (Return (), g)"
    and su: "setup_js g = Return (cols, w)"
    and lp: "positionLoop g (rectWidth it + gutter g) (centerOffset g w) 0 (children c) cols 0
               = (r, children c, cols', mh)"
    and h: "r = Return () \<Longrightarrow> height_px (style c) = Some (mh + gutter g)"
  shows "positionItems g = (r, g)"
proof -
  have g: "g\<lparr>container := Some c\<rparr> = g" using c by (simp add: c[symmetric])
  show ?thesis
  proof (cases "r = Return ()")
    case True
    have "(style c)\<lparr>height_px := Some (mh + gutter g)\<rparr> = style c"
      using h[OF True] by (rule style_height_same)
    then show ?thesis using positionItems_unfold[OF c its st c su lp] True g by simp
  next
    case False
    then show ?thesis using positionItems_unfold[OF c its st c su lp] g by simp
  qed
qed

lemma map_eq_Cons_hd:
  "map f xs = map f (y # ys) \<Longrightarrow> \<exists>x xs'. xs = x # xs' \<and> f x = f y"
  by (cases xs) auto

lemma positionItems_again:
  assumes "positionItems g = (r, g')"
  shows "positionItems g' = (r, g')"
proof (cases "container g")
  case None
  then show ?thesis using assms positionItems_no_container[OF None] by simp
next
  case (Some c)
  show ?thesis
  proof (cases "children c")
    case Nil
    have "positionItems g = (Throw TypeError, g)"
      using Some Nil by (simp add: positionItems_def setup_js_def colWidth_def items_def)
    then show ?thesis using assms by simp
  next
    case (Cons it rest)
    have cw: "colWidth g = Return (rectWidth it + gutter g)" by (rule colWidth_Cons[OF Some Cons])
    show ?thesis
    proof (cases "setup_js g")
      case (Throw e)
      then have "positionItems g = (Throw e, g)" by (simp add: positionItems_def)
      then show ?thesis using assms by simp
    next
      case Diverge
      then have "positionItems g = (Diverge, g)" by (simp add: positionItems_def)
      then show ?thesis using assms by simp
    next
      case (Return p)
      obtain cols w where p: "p = (cols, w)" by (cases p)
      have su: "setup_js g = Return (cols, w)" using Return p by simp
      obtain c1 s1 where
        ini: "initStyles g = (Return (), g\<lparr>container := Some c1, styledItems := s1\<rparr>)"
        and rw: "rectWidth c1 = rectWidth c"
        and ids: "map ident (children c1) = map ident (children c)"
        and ws: "map rectWidth (children c1) = map rectWidth (children c)"
        and rdy: "ready g = Return True \<Longrightarrow> position (style c1) = Some ''relative'' \<and> ident ` set (children c1) \<subseteq> s1"
        using initStyles_result[OF Some] by metis
      let ?g1 = "g\<lparr>container := Some c1, styledItems := s1\<rparr>"
      let ?cw = "rectWidth it + gutter g"
      let ?R = "positionLoop ?g1 ?cw (centerOffset g w) 0 (children c1) cols 0"
      obtain r0 its' cols' mh where R: "?R = (r0, its', cols', mh)" by (cases ?R) auto
      have c1: "container ?g1 = Some c1" by simp
      have pg: "positionItems g =
         (if r0 = Return ()
          then (Return (), ?g1\<lparr>container := Some (c1\<lparr>children := its',
                  style := (style c1)\<lparr>height_px := Some (mh + gutter g)\<rparr>\<rparr>)\<rparr>)
          else (r0, ?g1\<lparr>container := Some (c1\<lparr>children := its'\<rparr>)\<rparr>))"
        by (rule positionItems_unfold[OF Some Cons ini c1 su R])
      define c' where "c' = (if r0 = Return ()
          then c1\<lparr>children := its', style := (style c1)\<lparr>height_px := Some (mh + gutter g)\<rparr>\<rparr>
          else c1\<lparr>children := its'\<rparr>)"
      have r: "r = r0" and g': "g' = ?g1\<lparr>container := Some c'\<rparr>"
        using pg assms by (auto simp: c'_def split: if_splits)
      have its'_fields: "map ident its' = map ident (children c1)"
          "map rectWidth its' = map rectWidth (children c1)"
        using positionLoop_fields[of ?g1 ?cw "centerOffset g w" 0 "children c1" cols 0] R by simp_all
      have ch': "children c' = its'" by (simp add: c'_def)
      have "map rectWidth its' = map rectWidth (it # rest)" using its'_fields ws Cons by simp
      then obtain it' rest' where its'_Cons: "its' = it' # rest'" and wit': "rectWidth it' = rectWidth it"
        using map_eq_Cons_hd[of rectWidth its' it rest] by blast
      have cg': "container g' = Some c'" by (simp add: g')
      have chc': "children c' = it' # rest'" using ch' its'_Cons by simp
      have rwc': "rectWidth c' = rectWidth c" by (simp add: c'_def rw)
      have len: "length (children c') = length (children c)"
        using its'_fields(1) ids ch' by (metis length_map)
      have rdy': "ready g' = ready g"
        by (rule ready_cong[OF Some cg' len]) (simp_all add: g')
      have su': "setup_js g' = Return (cols, w)"
      proof -
        have "setup_js g' = setup_js g"
          by (rule setup_js_cong[OF Some cg' rwc'])
             (simp_all add: colWidth_Cons[OF cg' chc'] cw wit', simp_all add: g')
        then show ?thesis using su by simp
      qed
      have st': "initStyles g' = (Return (), g')"
      proof (rule initStyles_noop[OF cg'])
        assume "ready g' = Return True"
        then have "ready g = Return True" using rdy' by simp
        then show "position (style c') = Some ''relative''" using rdy by (simp add: c'_def)
      next
        assume "ready g' = Return True"
        then have t: "ready g = Return True" using rdy' by simp
        have "ident ` set (children c') = set (map ident its')" using ch' by simp
        also have "\<dots> = ident ` set (children c1)" using its'_fields(1) by simp
        finally show "ident ` set (children c') \<subseteq> styledItems g'" using rdy[OF t] by (simp add: g')
      qed
      have lp': "positionLoop g' (rectWidth it' + gutter g') (centerOffset g' w) 0 (children c') cols 0
               = (r0, children c', cols', mh)"
      proof -
        have "positionLoop g' (rectWidth it' + gutter g') (centerOffset g' w) 0 (children c') cols 0
            = positionLoop ?g1 ?cw (centerOffset g w) 0 its' cols 0"
          using positionLoop_cong[of g' ?g1 ?cw "centerOffset g w" 0 its' cols 0]
          by (simp add: g' wit' ch' centerOffset_def)
        also have "\<dots> = ?R"
          using positionLoop_again[of ?g1 ?cw "centerOffset g w" 0 "children c1" cols 0] R by simp
        finally show ?thesis using R ch' by simp
      qed
      have h': "r0 = Return () \<Longrightarrow> height_px (style c') = Some (mh + gutter g')"
        by (simp add: c'_def g')
      show ?thesis
        using positionItems_stable[OF cg' chc' st' su' lp' h'] r by simp
    qed
  qed
qed

subsection \<open>The frame of a pass\<close>

lemma trace_cong:
  "useMin g2 = useMin g \<Longrightarrow> gutter g2 = gutter g \<Longrightarrow> map rectHeight its2 = map rectHeight its \<Longrightarrow>
     trace g2 i its2 cols = trace g i its cols"
proof (induction its arbitrary: its2 i cols)
  case Nil
  then show ?case by simp
next
  case (Cons item rest)
  then obtain item2 rest2 where its2: "its2 = item2 # rest2" and h: "rectHeight item2 = rectHeight item"
    and rest: "map rectHeight rest2 = map rectHeight rest"
    by (cases its2) auto
  have nc: "nextCol g2 cols i = nextCol g cols i" using Cons.prems by (simp add: nextCol_def)
  have gr: "\<And>col. grow g2 col item2 = grow g col item"
    using Cons.prems h by (simp add: grow_def topGutter_def)
  show ?case
    using Cons.IH[OF Cons.prems(1,2) rest] by (simp add: its2 nc gr split: option.splits)
qed

lemma positionItems_frame:
  assumes "positionItems g = (r, g')"
  shows "static g' = static g \<and> size_items g' = size_items g \<and> gutter g' = gutter g
    \<and> maxColumns g' = maxColumns g \<and> useMin g' = useMin g \<and> useTransform g' = useTransform g
    \<and> animate g' = animate g \<and> center g' = center g \<and> onReady g' = onReady g
    \<and> containerClass g' = containerClass g
    \<and> (container g = None \<longrightarrow> container g' = None)
    \<and> (\<forall>c. container g = Some c \<longrightarrow> (\<exists>c'. container g' = Some c' \<and> rectWidth c' = rectWidth c
          \<and> map ident (children c') = map ident (children c)
          \<and> map rectWidth (children c') = map rectWidth (children c)
          \<and> map rectHeight (children c') = map rectHeight (children c)))"
proof (cases "container g")
  case None
  then show ?thesis using assms positionItems_no_container[OF None] by simp
next
  case (Some c)
  show ?thesis
  proof (cases "children c")
    case Nil
    have "positionItems g = (Throw TypeError, g)"
      using Some Nil by (simp add: positionItems_def setup_js_def colWidth_def items_def)
    then show ?thesis using assms Some by simp
  next
    case (Cons it rest)
    show ?thesis
    proof (cases "setup_js g")
      case (Throw e)
      then have "positionItems g = (Throw e, g)" by (simp add: positionItems_def)
      then show ?thesis using assms Some by simp
    next
      case Diverge
      then have "positionItems g = (Diverge, g)" by (simp add: positionItems_def)
      then show ?thesis using assms Some by simp
    next
      case (Return p)
      obtain cols w where p: "p = (cols, w)" by (cases p)
      have su: "setup_js g = Return (cols, w)" using Return p by simp
      obtain c1 s1 where
        ini: "initStyles g = (Return (), g\<lparr>container := Some c1, styledItems := s1\<rparr>)"
        and rw: "rectWidth c1 = rectWidth c"
        and ids: "map ident (children c1) = map ident (children c)"
        and ws: "map rectWidth (children c1) = map rectWidth (children c)"
        and hs: "map rectHeight (children c1) = map rectHeight (children c)"
        using initStyles_result[OF Some] by metis
      let ?g1 = "g\<lparr>container := Some c1, styledItems := s1\<rparr>"
      let ?cw = "rectWidth it + gutter g"
      let ?R = "positionLoop ?g1 ?cw (centerOffset g w) 0 (children c1) cols 0"
      obtain r0 its' cols' mh where R: "?R = (r0, its', cols', mh)" by (cases ?R) auto
      have c1: "container ?g1 = Some c1" by simp
      have pg: "positionItems g =
         (if r0 = Return ()
          then (Return (), ?g1\<lparr>container := Some (c1\<lparr>children := its',
                  style := (style c1)\<lparr>height_px := Some (mh + gutter g)\<rparr>\<rparr>)\<rparr>)
          else (r0, ?g1\<lparr>container := Some (c1\<lparr>children := its'\<rparr>)\<rparr>))"
        by (rule positionItems_unfold[OF Some Cons ini c1 su R])
      have f: "map ident its' = map ident (children c1)"
          "map rectWidth its' = map rectWidth (children c1)"
          "map rectHeight its' = map rectHeight (children c1)"
        using positionLoop_fields[of ?g1 ?cw "centerOffset g w" 0 "children c1" cols 0] R by simp_all
      show ?thesis using pg assms Some f ids ws hs rw
        by (auto split: if_splits)
    qed
  qed
qed

lemma passTrace_again:
  assumes "positionItems g = (r, g')"
  shows "passTrace g' = passTrace g"
proof (cases "container g")
  case None
  then show ?thesis using assms positionItems_no_container[OF None] by simp
next
  case (Some c)
  from positionItems_frame[OF assms] Some obtain c' where
    c': "container g' = Some c'" and rw: "rectWidth c' = rectWidth c"
    and ws: "map rectWidth (children c') = map rectWidth (children c)"
    and hs: "map rectHeight (children c') = map rectHeight (children c)"
    and fl: "gutter g' = gutter g" "maxColumns g' = maxColumns g" "useMin g' = useMin g"
    by auto
  have cw: "colWidth g' = colWidth g"
  proof (cases "children c")
    case Nil
    then have "children c' = []" using ws by simp
    then show ?thesis using Nil Some c' by (simp add: colWidth_def items_def)
  next
    case (Cons it rest)
    then obtain it' rest' where "children c' = it' # rest'" "rectWidth it' = rectWidth it"
      using map_eq_Cons_hd[of rectWidth "children c'" it rest] ws by auto
    then show ?thesis using Cons Some c' fl by (simp add: colWidth_def items_def)
  qed
  have su: "setup_js g' = setup_js g"
    by (rule setup_js_cong[OF Some c' rw cw fl(1,2)])
  have tr: "\<And>cols. trace g' 0 (children c') cols = trace g 0 (children c) cols"
    by (rule trace_cong[OF fl(3) fl(1) hs])
  show ?thesis
    by (simp add: passTrace_def su items_def Some c' tr cong: result.case_cong)
qed

subsection \<open>A pass under other widths\<close>

lemma reWidth_cong: "(\<And>i. j \<le> i \<Longrightarrow> f i = f' i) \<Longrightarrow> reWidth f j xs = reWidth f' j xs"
  by (induction xs arbitrary: j) simp_all

lemma node_rectWidth_same: "rectWidth n = x \<Longrightarrow> n\<lparr>rectWidth := x\<rparr> = (n::node)"
  by (cases n) simp

lemma otherWidths_eq:
  assumes "container g = Some c" "children c = it # rest"
  shows "otherWidths f g = withWidths (\<lambda>j. if j = 0 then rectWidth it else f j) g"
proof -
  have "reWidth f (Suc 0) rest = reWidth (\<lambda>j. if j = 0 then rectWidth it else f j) (Suc 0) rest"
    by (rule reWidth_cong) simp
  then show ?thesis using assms
    by (simp add: otherWidths_def withWidths_def node_rectWidth_same)
qed

lemma otherWidths_id:
  "container g = None \<or> (\<exists>c. container g = Some c \<and> children c = []) \<Longrightarrow> otherWidths f g = g"
  by (auto simp: otherWidths_def)

lemma withWidths_flags:
  "static (withWidths f g) = static g" "size_items (withWidths f g) = size_items g"
  "gutter (withWidths f g) = gutter g" "maxColumns (withWidths f g) = maxColumns g"
  "useMin (withWidths f g) = useMin g" "useTransform (withWidths f g) = useTransform g"
  "animate (withWidths f g) = animate g" "center (withWidths f g) = center g"
  "styledItems (withWidths f g) = styledItems g"
  by (simp_all add: withWidths_def)

lemma withWidths_container:
  "container g = Some c \<Longrightarrow> container (withWidths f g) = Some (c\<lparr>children := reWidth f 0 (children c)\<rparr>)"
  by (simp add: withWidths_def)

lemma initStyles_withWidths:
  assumes c: "container g = Some c"
  shows "initStyles (withWidths f g) = (Return (), withWidths f (snd (initStyles g)))"
proof -
  let ?c2 = "c\<lparr>children := reWidth f 0 (children c)\<rparr>"
  have c2: "container (withWidths f g) = Some ?c2" by (rule withWidths_container[OF c])
  have rd: "ready (withWidths f g) = ready g"
    by (rule ready_cong[OF c c2]) (simp_all add: length_reWidth withWidths_flags)
  show ?thesis
  proof (cases "ready g = Return True")
    case True
    then have T2: "ready (withWidths f g) = Return True" using rd by simp
    have sl: "styleLoop (withWidths f g) (styledItems g) (reWidth f 0 (children c))
        = (reWidth f 0 (fst (styleLoop g (styledItems g) (children c))),
           snd (styleLoop g (styledItems g) (children c)))"
      using styleLoop_cong[of "withWidths f g" g "styledItems g" "reWidth f 0 (children c)"]
      by (simp add: withWidths_flags styleLoop_reWidth)
    show ?thesis
      by (simp add: initStyles_ready[OF T2 c2] initStyles_ready[OF True c] sl withWidths_flags)
         (simp add: withWidths_def)
  next
    case False
    then have F1: "ready g = Return False" using ready_container[OF c] by auto
    then have F2: "ready (withWidths f g) = Return False" using rd by simp
    show ?thesis by (simp add: initStyles_not_ready[OF F1] initStyles_not_ready[OF F2])
  qed
qed

lemma positionItems_withWidths:
  assumes c: "container g = Some c" and its: "children c = it # rest" and f0: "f 0 = rectWidth it"
  shows "positionItems (withWidths f g) = (fst (positionItems g), withWidths f (snd (positionItems g)))"
proof -
  let ?G = "withWidths f g"
  let ?c2 = "c\<lparr>children := reWidth f 0 (children c)\<rparr>"
  have c2: "container ?G = Some ?c2" by (rule withWidths_container[OF c])
  have chc2: "children ?c2 = it\<lparr>rectWidth := f 0\<rparr> # reWidth f (Suc 0) rest" by (simp add: its)
  have cw2: "colWidth ?G = colWidth g"
    by (simp add: colWidth_Cons[OF c2 chc2] colWidth_Cons[OF c its] f0 withWidths_flags)
  have su2: "setup_js ?G = setup_js g"
    by (rule setup_js_cong[OF c c2 _ cw2]) (simp_all add: withWidths_flags)
  show ?thesis
  proof (cases "setup_js g")
    case (Throw e)
    then show ?thesis using su2 by (simp add: positionItems_def)
  next
    case Diverge
    then show ?thesis using su2 by (simp add: positionItems_def)
  next
    case (Return p)
    obtain cols w where p: "p = (cols, w)" by (cases p)
    have su: "setup_js g = Return (cols, w)" using Return p by simp
    have su2': "setup_js ?G = Return (cols, w)" using su su2 by simp
    obtain c1 s1 where
      ini: "initStyles g = (Return (), g\<lparr>container := Some c1, styledItems := s1\<rparr>)"
      using initStyles_result[OF c] by metis
    let ?g1 = "g\<lparr>container := Some c1, styledItems := s1\<rparr>"
    let ?c12 = "c1\<lparr>children := reWidth f 0 (children c1)\<rparr>"
    have c1: "container ?g1 = Some c1" by simp
    have ini2: "initStyles ?G = (Return (), withWidths f ?g1)"
      using initStyles_withWidths[OF c, of f] ini by simp
    have c12: "container (withWidths f ?g1) = Some ?c12" by (rule withWidths_container[OF c1])
    let ?cw = "rectWidth it + gutter g"
    let ?R = "positionLoop ?g1 ?cw (centerOffset g w) 0 (children c1) cols 0"
    obtain r0 its' cols' mh where R: "?R = (r0, its', cols', mh)" by (cases ?R) auto
    have R2: "positionLoop (withWidths f ?g1) (rectWidth (it\<lparr>rectWidth := f 0\<rparr>) + gutter ?G)
         (centerOffset ?G w) 0 (children ?c12) cols 0 = (r0, reWidth f 0 its', cols', mh)"
    proof -
      have "positionLoop (withWidths f ?g1) (rectWidth (it\<lparr>rectWidth := f 0\<rparr>) + gutter ?G)
         (centerOffset ?G w) 0 (children ?c12) cols 0
         = positionLoop ?g1 ?cw (centerOffset g w) 0 (reWidth f 0 (children c1)) cols 0"
        using positionLoop_cong[of "withWidths f ?g1" ?g1 ?cw "centerOffset g w" 0
                "reWidth f 0 (children c1)" cols 0]
        by (simp add: withWidths_flags f0 centerOffset_def)
      also have "\<dots> = (r0, reWidth f 0 its', cols', mh)"
        by (simp add: positionLoop_reWidth R)
      finally show ?thesis .
    qed
    have pg: "positionItems g =
         (if r0 = Return ()
          then (Return (), ?g1\<lparr>container := Some (c1\<lparr>children := its',
                  style := (style c1)\<lparr>height_px := Some (mh + gutter g)\<rparr>\<rparr>)\<rparr>)
          else (r0, ?g1\<lparr>container := Some (c1\<lparr>children := its'\<rparr>)\<rparr>))"
      by (rule positionItems_unfold[OF c its ini c1 su R])
    have pg2: "positionItems ?G =
         (if r0 = Return ()
          then (Return (), (withWidths f ?g1)\<lparr>container := Some (?c12\<lparr>children := reWidth f 0 its',
                  style := (style ?c12)\<lparr>height_px := Some (mh + gutter ?G)\<rparr>\<rparr>)\<rparr>)
          else (r0, (withWidths f ?g1)\<lparr>container := Some (?c12\<lparr>children := reWidth f 0 its'\<rparr>)\<rparr>))"
      by (rule positionItems_unfold[OF c2 chc2 ini2 c12 su2' R2])
    show ?thesis
      by (simp add: pg pg2 withWidths_flags) (simp add: withWidths_def)
  qed
qed

lemma positionItems_otherWidths:
  "positionItems (otherWidths f g) = (fst (positionItems g), otherWidths f (snd (positionItems g)))"
proof (cases "container g")
  case None
  then show ?thesis using positionItems_no_container[OF None] by (simp add: otherWidths_id)
next
  case (Some c)
  show ?thesis
  proof (cases "children c")
    case Nil
    have "positionItems g = (Throw TypeError, g)"
      using Some Nil by (simp add: positionItems_def setup_js_def colWidth_def items_def)
    moreover have "otherWidths f g = g" using Some Nil by (simp add: otherWidths_id)
    ultimately show ?thesis by simp
  next
    case (Cons it rest)
    let ?F = "\<lambda>j. if j = 0 then rectWidth it else f j"
    obtain r g' where pg: "positionItems g = (r, g')" by (cases "positionItems g")
    from positionItems_frame[OF pg] Some obtain c' where
      c': "container g' = Some c'" and ws: "map rectWidth (children c') = map rectWidth (children c)"
      by auto
    obtain it' rest' where ch': "children c' = it' # rest'" and wit': "rectWidth it' = rectWidth it"
      using map_eq_Cons_hd[of rectWidth "children c'" it rest] ws Cons by auto
    have "positionItems (otherWidths f g) = positionItems (withWidths ?F g)"
      by (simp add: otherWidths_eq[OF Some Cons])
    also have "\<dots> = (r, withWidths ?F g')"
      using positionItems_withWidths[OF Some Cons, of ?F] pg by simp
    also have "withWidths ?F g' = otherWidths f g'"
      using otherWidths_eq[OF c' ch', of f] unfolding wit' by simp
    finally show ?thesis using pg by simp
  qed
qed

subsection \<open>The items of a pass\<close>

lemma trace_next:
  "cols \<noteq> [] \<Longrightarrow> Suc n < length its \<Longrightarrow>
     fst (snd (trace g i its cols ! Suc n)) = snd (snd (trace g i its cols ! n))"
proof (induction its arbitrary: i cols n)
  case Nil
  then show ?case by simp
next
  case (Cons item rest)
  obtain k where k: "nextCol g cols i = Some k" and kl: "k < length cols"
    using nextCol_Some[OF Cons.prems(1)] by blast
  let ?cols' = "cols[k := grow g (cols ! k) item]"
  have ne: "?cols' \<noteq> []" using Cons.prems by simp
  show ?case
  proof (cases n)
    case 0
    then obtain item2 rest2 where rest: "rest = item2 # rest2" using Cons.prems by (cases rest) auto
    obtain k2 where k2: "nextCol g ?cols' (Suc i) = Some k2"
      using nextCol_Some[OF ne] by blast
    show ?thesis using 0 k k2 rest by (simp add: Let_def)
  next
    case (Suc m)
    then have m: "Suc m < length rest" using Cons.prems by simp
    from Cons.IH[OF ne m] show ?thesis using k Suc by (simp add: Let_def)
  qed
qed

lemma makeCols_nonempty: "makeCols x = Some cols \<Longrightarrow> cols \<noteq> [] \<Longrightarrow> \<exists>n. x = Num n"
  by (cases x) auto

lemma setup_Return:
  assumes "setup_js g = Return (cols, ws)"
  shows "(\<exists>n. cols = newCols n) \<and> (cols \<noteq> [] \<longrightarrow> (\<exists>w. ws = Num w))"
proof -
  obtain c where c: "container g = Some c" using assms by (cases "container g") (auto simp: setup_js_def)
  obtain cw where cw: "colWidth g = Return cw" using assms c by (cases "colWidth g") (auto simp: setup_js_def)
  define x where "x = clampCols (maxColumns g)
      (or_js (floor_js (div_js (Num (rectWidth c + gutter g)) (Num cw))) (Num 1))"
  have mk: "makeCols x = Some cols"
    and ws: "ws = add_js (sub_js (Num (rectWidth c)) (mul_js x (Num cw))) (Num (gutter g))"
    using assms c cw by (auto simp: setup_js_def x_def Let_def split: option.splits)
  have "[] = newCols 0" by (simp add: newCols_def)
  then have "\<exists>n. cols = newCols n" using mk by (cases x) auto
  moreover have "cols \<noteq> [] \<longrightarrow> (\<exists>w. ws = Num w)"
  proof
    assume "cols \<noteq> []"
    then obtain n where "x = Num n" using makeCols_nonempty[OF mk] by blast
    then show "\<exists>w. ws = Num w" using ws by (simp add: sub_js_def)
  qed
  ultimately show ?thesis by simp
qed

lemma newCols_heights: "k < length (newCols n) \<Longrightarrow> height (newCols n ! k) = 0"
  by (simp add: newCols_def)

lemma pass_item:
  assumes pg: "positionItems g = (Return (), g')" and c: "container g = Some c"
    and c': "container g' = Some c'" and n: "n < length (children c)"
    and su: "setup_js g = Return (cols, w)" and cw: "colWidth g = Return cw"
  shows "cols \<noteq> [] \<and> passTrace g = trace g 0 (children c) cols \<and> length (children c') = length (children c)
     \<and> (\<exists>k before after. passTrace g ! n = (k, before, after) \<and> k < length before
        \<and> after = before[k := grow g (before ! k) (children c ! n)]
        \<and> placedTop g (children c' ! n) = Some (Num (height (before ! k) + topGutter g (before ! k)))
        \<and> placedLeft g (children c' ! n)
            = Some (add_js (Num (of_nat (index (before ! k)) * cw)) (centerOffset g w)))"
proof -
  obtain it rest where its: "children c = it # rest" using n by (cases "children c") auto
  have cwv: "cw = rectWidth it + gutter g" using cw colWidth_Cons[OF c its] by simp
  obtain c1 s1 where
    ini: "initStyles g = (Return (), g\<lparr>container := Some c1, styledItems := s1\<rparr>)"
    and hs: "map rectHeight (children c1) = map rectHeight (children c)"
    using initStyles_result[OF c] by metis
  let ?g1 = "g\<lparr>container := Some c1, styledItems := s1\<rparr>"
  let ?ws = "centerOffset g w"
  let ?R = "positionLoop ?g1 cw ?ws 0 (children c1) cols 0"
  obtain r0 its' cols' mh where R: "?R = (r0, its', cols', mh)" by (cases ?R) auto
  have c1: "container ?g1 = Some c1" by simp
  have pgu: "positionItems g =
         (if r0 = Return ()
          then (Return (), ?g1\<lparr>container := Some (c1\<lparr>children := its',
                  style := (style c1)\<lparr>height_px := Some (mh + gutter g)\<rparr>\<rparr>)\<rparr>)
          else (r0, ?g1\<lparr>container := Some (c1\<lparr>children := its'\<rparr>)\<rparr>))"
    using positionItems_unfold[OF c its ini c1 su] R cwv by simp
  have r0: "r0 = Return ()" and ch': "children c' = its'"
    using pgu pg c' by (auto split: if_splits)
  have len1: "length (children c1) = length (children c)" using hs by (metis length_map)
  have ne: "cols \<noteq> []"
  proof
    assume "cols = []"
    moreover obtain it1 rest1 where "children c1 = it1 # rest1"
      using len1 its by (cases "children c1") auto
    ultimately have "?R = (Throw TypeError, children c1, [], 0)"
      using positionLoop_no_cols[of ?g1 cw ?ws 0 it1 rest1 0] by simp
    then show False using R r0 by simp
  qed
  have n1: "n < length (children c1)" using n len1 by simp
  have tr: "trace ?g1 0 (children c1) cols = trace g 0 (children c) cols"
    by (rule trace_cong) (simp_all add: hs)
  have pt: "passTrace g = trace g 0 (children c) cols"
    by (simp add: passTrace_def su items_def c)
  obtain k before after where
    t: "trace ?g1 0 (children c1) cols ! n = (k, before, after)" and kl: "k < length before"
    and af: "after = before[k := grow ?g1 (before ! k) (children c1 ! n)]"
    and it: "fst (snd ?R) ! n = position_item ?g1 cw ?ws (before ! k) (children c1 ! n)"
    using positionLoop_nth[OF ne n1, of ?g1 0 cw ?ws 0] by auto
  have hn: "rectHeight (children c1 ! n) = rectHeight (children c ! n)"
    using hs n n1 by (metis nth_map)
  have gr: "grow ?g1 (before ! k) (children c1 ! n) = grow g (before ! k) (children c ! n)"
    by (simp add: grow_def topGutter_def hn)
  have item: "children c' ! n = position_item ?g1 cw ?ws (before ! k) (children c1 ! n)"
    using it R ch' by simp
  have top: "placedTop g (children c' ! n) = Some (Num (height (before ! k) + topGutter g (before ! k)))"
    by (simp add: item placedTop_def position_item_def topGutter_def Let_def)
  have left: "placedLeft g (children c' ! n)
            = Some (add_js (Num (of_nat (index (before ! k)) * cw)) (centerOffset g w))"
    by (simp add: item placedLeft_def position_item_def Let_def)
  have len': "length (children c') = length (children c)"
    using positionLoop_length[of ?g1 cw ?ws 0 "children c1" cols 0] R ch' len1 by simp
  show ?thesis using ne pt len' t kl af gr top left tr by simp
qed

lemma trace_before_length:
  "cols \<noteq> [] \<Longrightarrow> n < length its \<Longrightarrow> length (fst (snd (trace g i its cols ! n))) = length cols"
proof (induction its arbitrary: i cols n)
  case Nil
  then show ?case by simp
next
  case (Cons item rest)
  obtain k where k: "nextCol g cols i = Some k"
    using nextCol_Some[OF Cons.prems(1)] by blast
  let ?cols' = "cols[k := grow g (cols ! k) item]"
  have ne: "?cols' \<noteq> []" using Cons.prems by simp
  show ?case
  proof (cases n)
    case 0
    then show ?thesis using k by (simp add: Let_def)
  next
    case (Suc m)
    then have m: "m < length rest" using Cons.prems by simp
    from Cons.IH[OF ne m, of "Suc i"] show ?thesis using k Suc by (simp add: Let_def)
  qed
qed

lemma positionItems_Return_setup:
  assumes "positionItems g = (Return (), g')"
  shows "\<exists>cols w cw. setup_js g = Return (cols, w) \<and> colWidth g = Return cw"
proof (cases "setup_js g")
  case (Return p)
  then show ?thesis using assms
    by (cases p; cases "colWidth g") (auto simp: positionItems_def)
next
  case (Throw e)
  then show ?thesis using assms by (simp add: positionItems_def)
next
  case Diverge
  then show ?thesis using assms by (simp add: positionItems_def)
qed

lemma pass_first_in_column:
  assumes su: "setup_js g = Return (cols, w)" and c: "container g = Some c"
    and ne: "cols \<noteq> []" and n: "n < length (children c)"
    and t: "passTrace g ! n = (k, before, after)" and kl: "k < length before"
    and first: "k \<notin> fst ` set (take n (passTrace g))"
  shows "height (before ! k) = 0"
proof -
  have pt: "passTrace g = trace g 0 (children c) cols"
    by (simp add: passTrace_def su items_def c)
  have "fst (snd (trace g 0 (children c) cols ! n)) ! k = cols ! k"
    using trace_untouched[OF ne n, of k g 0] first pt by simp
  then have bk: "before ! k = cols ! k" using t pt by simp
  have "length before = length cols"
    using trace_before_length[OF ne n, of g 0] t pt by simp
  then have "k < length cols" using kl by simp
  moreover obtain m where "cols = newCols m" using setup_Return[OF su] by blast
  ultimately show ?thesis using bk newCols_heights by simp
qed

subsection \<open>The host\<close>




lemma resize_one_idle:
  "listeners h = [None] \<Longrightarrow> resize t h = h\<lparr>listeners := [Some (t + 200)], timers := timers h @ [(0, t + 200)]\<rparr>"
  by (simp add: resize_def onResize_def)

lemma resize_one_pending: "listeners h = [Some d] \<Longrightarrow> resize t h = h"
  by (simp add: resize_def onResize_def)

lemma fireDue_none: "timers h = [] \<Longrightarrow> fireDue t (g, h) = (g, h)"
  by (simp add: fireDue_def)

lemma fireDue_later: "timers h = [(k, d)] \<Longrightarrow> t < d \<Longrightarrow> fireDue t (g, h) = (g, h)"
  by (simp add: fireDue_def)

lemma notify_pending:
  "listeners h = [Some d] \<Longrightarrow> timers h = [(k, d)] \<Longrightarrow> t < d \<Longrightarrow> notify t (g, h) = (g, h)"
  by (simp add: notify_def fireDue_later resize_one_pending)

lemma burst_pending:
  "listeners h = [Some d] \<Longrightarrow> timers h = [(k, d)] \<Longrightarrow> \<forall>s\<in>set ts. s < d \<Longrightarrow> burst ts (g, h) = (g, h)"
  by (induction ts) (simp_all add: burst_def notify_pending)





subsection \<open>setup in terms of the column width\<close>

lemma setup_by_colWidth:
  "container g = Some c \<Longrightarrow> colWidth g = Return cw \<Longrightarrow>
     setup_js g =
       (let numCols = clampCols (maxColumns g)
                        (or_js (floor_js (div_js (Num (rectWidth c + gutter g)) (Num cw))) (Num 1))
        in case makeCols numCols of
             None \<Rightarrow> Diverge
           | Some cols \<Rightarrow>
               Return (cols, add_js (sub_js (Num (rectWidth c)) (mul_js numCols (Num cw)))
                               (Num (gutter g))))"
  by (simp add: setup_js_def Let_def)

lemma clampCols_int:
  "clampCols mc (Num (of_int n))
     = Num (of_int (case mc of None \<Rightarrow> n | Some m \<Rightarrow> if m \<noteq> 0 \<and> m < n then m else n))"
  by (simp add: clampCols_def split: option.splits)

lemma setup_count_int:
  assumes c: "container g = Some c" and its: "children c = it # rest"
    and W: "rectWidth c = of_int W" and I: "rectWidth it = of_int I" and G: "gutter g = of_int G"
    and nz: "I + G \<noteq> 0"
  shows "\<exists>w. setup_js g
     = Return (newCols (nat (let q = (W + G) div (I + G); n = (if q = 0 then 1 else q)
                             in case maxColumns g of
                                  None \<Rightarrow> n
                                | Some m \<Rightarrow> if m \<noteq> 0 \<and> m < n then m else n)), w)"
proof -
  define q where "q = (W + G) div (I + G)"
  define n where "n = (if q = 0 then 1 else q)"
  define k where "k = (case maxColumns g of None \<Rightarrow> n | Some m \<Rightarrow> if m \<noteq> 0 \<and> m < n then m else n)"
  have cw: "colWidth g = Return (of_int (I + G))"
    using colWidth_Cons[OF c its] I G by simp
  have nz': "(of_int (I + G) :: rat) \<noteq> 0" using nz by simp
  have fl: "\<lfloor>(of_int (W + G) :: rat) / of_int (I + G)\<rfloor> = q"
    unfolding q_def by (rule floor_divide_of_int_eq)
  have sum: "rectWidth c + gutter g = of_int (W + G)" using W G by simp
  have raw: "or_js (floor_js (div_js (Num (rectWidth c + gutter g)) (Num (of_int (I + G))))) (Num 1)
      = Num (of_int n)"
  proof -
    have "div_js (Num (rectWidth c + gutter g)) (Num (of_int (I + G)))
        = Num (of_int (W + G) / of_int (I + G))"
      using nz' unfolding sum by (simp del: of_int_add)
    then show ?thesis using fl by (simp add: or_js_def n_def del: of_int_add)
  qed
  have cl: "clampCols (maxColumns g) (Num (of_int n)) = Num (of_int k)"
    by (simp add: clampCols_int k_def)
  have "setup_js g = Return (newCols (nat k),
      add_js (sub_js (Num (rectWidth c)) (mul_js (Num (of_int k)) (Num (of_int (I + G)))))
        (Num (gutter g)))"
    unfolding setup_by_colWidth[OF c cw] Let_def raw cl by simp
  then show ?thesis unfolding k_def n_def q_def Let_def by blast
qed

section \<open>The layout pass on the scenario\<close>

text \<open>
  Claim C1. A container of width 300 holds five items of measured width 90 and heights
  50, 80, 30, 60, 40; the gutter is 10 and \<^verbatim>\<open>useMin\<close> is off. Then \<^verbatim>\<open>colWidth\<close> is 100,
  \<^verbatim>\<open>setup\<close> makes 3 columns, the loop puts the items into the columns 0, 1, 2, 0, 1 (at
  the left offsets 0, 100, 200, 0, 100) and leaves the column heights 120, 130, 30, and
  the pass returns with the container height set to 140.
\<close>

theorem scenario_layout:
  "colWidth scenario = Return 100
   \<and> setup_js scenario = Return (newCols 3, Num 10)
   \<and> length (newCols 3) = 3
   \<and> map fst (passTrace scenario) = [0, 1, 2, 0, 1]
   \<and> (case positionLoop scenario 100 (Num 0) 0 scenario_items (newCols 3) 0 of
        (r, its, cols, maxHeight) \<Rightarrow> (r, map height cols, maxHeight)) = (Return (), [120, 130, 30], 130)
   \<and> fst (positionItems scenario) = Return ()
   \<and> map_option (\<lambda>c. map (placedLeft scenario) (children c)) (container (snd (positionItems scenario)))
       = Some [Some (Num 0), Some (Num 100), Some (Num 200), Some (Num 0), Some (Num 100)]
   \<and> map_option (\<lambda>c. height_px (style c)) (container (snd (positionItems scenario)))
       = Some (Some 140)"
  by (intro conjI; code_simp)


section \<open>The number of columns\<close>

text \<open>
  Claim C2, as it stands, fails: with a negative gutter the sum of container width and
  gutter can be negative, and \<^verbatim>\<open>Math.floor(...) || 1\<close> replaces only \<^verbatim>\<open>0\<close> and \<^verbatim>\<open>NaN\<close>.
  A container 10 wide, one item 30 wide and a gutter of -20 give the positive column
  width 10, \<^verbatim>\<open>numCols = -1\<close>, and no column.
\<close>

theorem setup_negative_gutter:
  "colWidth (grid_of 10 (- 20) [box 1 30 50]) = Return 10
   \<and> setup_js (grid_of 10 (- 20) [box 1 30 50]) = Return ([], Num 0)"
  by (intro conjI; code_simp)

text \<open>
  Claim C2, amended. When container width plus gutter is not negative (so for every
  gutter that is not negative), the column width is positive and a configured maximum is
  at least 1, \<^verbatim>\<open>setup\<close> returns at least one column, and at most the maximum when one
  is configured.
\<close>

theorem setup_numCols:
  assumes c: "container g = Some c" and its: "children c = it # rest"
    and w: "0 \<le> rectWidth c + gutter g" and cw: "0 < rectWidth it + gutter g"
    and mc: "\<And>m. maxColumns g = Some m \<Longrightarrow> 1 \<le> m"
  shows "\<exists>cols wSpace. setup_js g = Return (cols, wSpace) \<and> 1 \<le> length cols
           \<and> (\<forall>m. maxColumns g = Some m \<longrightarrow> int (length cols) \<le> m)"
proof -
  define q where "q = \<lfloor>(rectWidth c + gutter g) / (rectWidth it + gutter g)\<rfloor>"
  have q: "0 \<le> q" unfolding q_def using w cw by simp
  define n where "n = (if q = 0 then 1 else q)"
  have n: "1 \<le> n" using q by (simp add: n_def)
  have raw: "or_js (floor_js (div_js (Num (rectWidth c + gutter g)) (Num (rectWidth it + gutter g)))) (Num 1)
      = Num (of_int n)"
    using cw by (simp add: or_js_def q_def n_def)
  show ?thesis
  proof (cases "maxColumns g")
    case None
    then show ?thesis using c its raw n
      by (simp add: setup_js_def colWidth_def items_def clampCols_def length_newCols)
  next
    case (Some m)
    then have "1 \<le> m" using mc by simp
    then show ?thesis using c its raw n Some
      by (auto simp: setup_js_def colWidth_def items_def clampCols_def length_newCols)
  qed
qed

theorem setup_numCols_witness:
  "\<exists>cols wSpace. setup_js (scenario\<lparr>maxColumns := Some 2\<rparr>) = Return (cols, wSpace)
      \<and> 1 \<le> length cols \<and> int (length cols) \<le> 2"
proof -
  let ?g = "scenario\<lparr>maxColumns := Some 2\<rparr>"
  have "\<exists>cols wSpace. setup_js ?g = Return (cols, wSpace) \<and> 1 \<le> length cols
           \<and> (\<forall>m. maxColumns ?g = Some m \<longrightarrow> int (length cols) \<le> m)"
    by (rule setup_numCols[where it = "box 1 90 50"
          and rest = "[box 2 90 80, box 3 90 30, box 4 90 60, box 5 90 40]"
          and c = "\<lparr>ident = 0, className = ''grid'', rectWidth = 300, rectHeight = 0,
                   style = noStyle, children = scenario_items\<rparr>"])
       (simp_all add: scenario_def grid_of_def scenario_items_def box_def)
  then show ?thesis by simp
qed

section \<open>A container without items\<close>

text \<open>
  Claim C4, as it stands, fails: the pass does not complete without error. \<^verbatim>\<open>setup\<close>
  calls \<^verbatim>\<open>colWidth\<close>, which reads the first item.
\<close>

theorem empty_pass_throws: "fst (positionItems (grid_of 300 10 [])) = Throw TypeError"
  by code_simp

text \<open>
  Claim C4, amended. When the container holds no items, the pass throws a TypeError
  before anything is written: the object and the container, its height with them, are
  as they were.
\<close>

theorem empty_pass:
  "container g = Some c \<Longrightarrow> children c = [] \<Longrightarrow> positionItems g = (Throw TypeError, g)"
  by (simp add: positionItems_def setup_js_def colWidth_def items_def)

theorem empty_pass_witness:
  "positionItems (grid_of 300 10 []) = (Throw TypeError, grid_of 300 10 [])"
  using empty_pass[of "grid_of 300 10 []"] by (simp add: grid_of_def)

section \<open>The gutter above an item\<close>

text \<open>
  Claim C3, as it stands, fails: the loop decides by \<^verbatim>\<open>col.height\<close>, not by whether the
  item is the first of its column. A container 100 wide with gutter 10 has one column;
  of its two items the first measures 0 high. Both items go to column 0, the column is
  0 high before each of them, and the second item, not the first of its column, is put at
  top 0 (the accumulated height 0 plus no gutter), not at 0 + 10.
\<close>

theorem zero_height_item_no_gutter:
  "map fst (passTrace (grid_of 100 10 [box 1 90 0, box 2 90 50])) = [0, 0]
   \<and> map (\<lambda>(k, before, after). height (before ! k)) (passTrace (grid_of 100 10 [box 1 90 0, box 2 90 50]))
       = [0, 0]
   \<and> fst (positionItems (grid_of 100 10 [box 1 90 0, box 2 90 50])) = Return ()
   \<and> map_option (\<lambda>c. map (placedTop (grid_of 100 10 [box 1 90 0, box 2 90 50])) (children c))
         (container (snd (positionItems (grid_of 100 10 [box 1 90 0, box 2 90 50]))))
       = Some [Some (Num 0), Some (Num 0)]"
  by (intro conjI; code_simp)

text \<open>
  Claim C3, amended. For every item placed by a pass that returns, with \<open>h\<close> the
  accumulated height of its column just before: the gutter above it is 0 when \<open>h\<close> is 0
  and the gutter otherwise; its top offset is \<open>h\<close> plus that gutter; the column grows by
  the item's measured height plus that gutter; the first item placed into a column finds
  \<open>h = 0\<close>, so has no gutter above (a later item has none either while all items before it
  in the column measured 0 high); and the next item finds the columns as this one left
  them.
\<close>

theorem top_gutter_by_height:
  assumes pg: "positionItems g = (Return (), g')" and c: "container g = Some c"
    and c': "container g' = Some c'" and n: "n < length (children c)"
  shows "\<exists>k before after. passTrace g ! n = (k, before, after)
      \<and> placedTop g (children c' ! n)
          = Some (Num (height (before ! k) + (if height (before ! k) \<noteq> 0 then gutter g else 0)))
      \<and> height (after ! k)
          = height (before ! k)
            + (rectHeight (children c ! n) + (if height (before ! k) \<noteq> 0 then gutter g else 0))
      \<and> (k \<notin> fst ` set (take n (passTrace g)) \<longrightarrow> height (before ! k) = 0)
      \<and> (Suc n < length (children c) \<longrightarrow> fst (snd (passTrace g ! Suc n)) = after)"
proof -
  obtain cols w cw where su: "setup_js g = Return (cols, w)" and cw: "colWidth g = Return cw"
    using positionItems_Return_setup[OF pg] by blast
  from pass_item[OF pg c c' n su cw] obtain k before after where
    ne: "cols \<noteq> []" and pt: "passTrace g = trace g 0 (children c) cols"
    and t: "passTrace g ! n = (k, before, after)" and kl: "k < length before"
    and af: "after = before[k := grow g (before ! k) (children c ! n)]"
    and top: "placedTop g (children c' ! n) = Some (Num (height (before ! k) + topGutter g (before ! k)))"
    by blast
  have grown: "height (after ! k)
      = height (before ! k)
        + (rectHeight (children c ! n) + (if height (before ! k) \<noteq> 0 then gutter g else 0))"
    using kl by (simp add: af grow_def topGutter_def)
  have first: "k \<notin> fst ` set (take n (passTrace g)) \<longrightarrow> height (before ! k) = 0"
    using pass_first_in_column[OF su c ne n t kl] by blast
  have nxt: "Suc n < length (children c) \<longrightarrow> fst (snd (passTrace g ! Suc n)) = after"
    using trace_next[OF ne, of n "children c" g 0] t pt by simp
  show ?thesis
    using t top grown first nxt by (simp add: topGutter_def)
qed

theorem top_gutter_by_height_witness:
  "\<exists>c' k before after. container (snd (positionItems scenario)) = Some c'
      \<and> passTrace scenario ! 3 = (k, before, after)
      \<and> placedTop scenario (children c' ! 3)
          = Some (Num (height (before ! k) + (if height (before ! k) \<noteq> 0 then gutter scenario else 0)))
      \<and> height (after ! k) = height (before ! k) + (60 + (if height (before ! k) \<noteq> 0 then gutter scenario else 0))"
proof -
  have r: "fst (positionItems scenario) = Return ()" by code_simp
  have pg: "positionItems scenario = (Return (), snd (positionItems scenario))"
    using r by (metis prod.collapse)
  have "container (snd (positionItems scenario)) \<noteq> None" by code_simp
  then obtain c' where c': "container (snd (positionItems scenario)) = Some c'" by blast
  have c: "container scenario = Some \<lparr>ident = 0, className = ''grid'', rectWidth = 300,
      rectHeight = 0, style = noStyle, children = scenario_items\<rparr>"
    by (simp add: scenario_def grid_of_def)
  have n: "3 < length (children \<lparr>ident = 0, className = ''grid'', rectWidth = 300,
      rectHeight = 0, style = noStyle, children = scenario_items\<rparr>)"
    by (simp add: scenario_items_def)
  have h: "rectHeight (children \<lparr>ident = 0, className = ''grid'', rectWidth = 300,
      rectHeight = 0, style = noStyle, children = scenario_items\<rparr> ! 3) = 60"
    by (simp add: scenario_items_def box_def)
  from top_gutter_by_height[OF pg c c' n] obtain k before after where
    "passTrace scenario ! 3 = (k, before, after)"
    "placedTop scenario (children c' ! 3)
      = Some (Num (height (before ! k) + (if height (before ! k) \<noteq> 0 then gutter scenario else 0)))"
    "height (after ! k) = height (before ! k)
      + (60 + (if height (before ! k) \<noteq> 0 then gutter scenario else 0))"
    unfolding h by blast
  then show ?thesis using c' by blast
qed

section \<open>The centering offset\<close>




section \<open>A pass run again\<close>

text \<open>
  Claim C8. Whatever a pass does (it returns, throws, or does not return), a second pass
  on the object and container as the first one left them, with the measurements as they
  were, does the same and leaves them as they are: every item keeps its left and top
  offset, the container its height; and the items go to the same columns.
\<close>

theorem positionItems_idempotent:
  "positionItems (snd (positionItems g)) = positionItems g
   \<and> passTrace (snd (positionItems g)) = passTrace g"
proof -
  obtain r g' where pg: "positionItems g = (r, g')" by (cases "positionItems g")
  show ?thesis using positionItems_again[OF pg] passTrace_again[OF pg] pg by simp
qed

section \<open>The width of a column\<close>

text \<open>
  Claim C10. \<^verbatim>\<open>colWidth\<close> is the measured width of the first item plus the gutter, and
  throws when the container has no item (or is \<^verbatim>\<open>null\<close>). The number of columns and the
  leftover space that \<^verbatim>\<open>setup\<close> returns are computed from that value: the count is the
  floor of (container width + gutter) / \<^verbatim>\<open>colWidth\<close>, with 1 for 0, lowered to
  \<^verbatim>\<open>maxColumns\<close>; for measurements that are whole numbers below \<open>2 ^ 52\<close> in size (on which
  the arithmetic of the code is exact) and a column width that is not 0 this is an
  integer quotient. The widths of the other items are never read: with any other widths
  for them, \<^verbatim>\<open>setup\<close> returns the same and the pass does the same, writing the same
  styles and height. In a pass that returns, every item is put at left \<^verbatim>\<open>col.index\<close>
  times that column width, plus the centering offset.
\<close>

theorem first_item_width:
  "colWidth g = (case container g of
                   None \<Rightarrow> Throw TypeError
                 | Some c \<Rightarrow> (case children c of
                               [] \<Rightarrow> Throw TypeError
                             | it # rest \<Rightarrow> Return (rectWidth it + gutter g)))
   \<and> (\<forall>c cw. container g = Some c \<and> colWidth g = Return cw \<longrightarrow>
         setup_js g =
           (let numCols = clampCols (maxColumns g)
                            (or_js (floor_js (div_js (Num (rectWidth c + gutter g)) (Num cw))) (Num 1))
            in case makeCols numCols of
                 None \<Rightarrow> Diverge
               | Some cols \<Rightarrow>
                   Return (cols, add_js (sub_js (Num (rectWidth c)) (mul_js numCols (Num cw)))
                                   (Num (gutter g)))))
   \<and> (\<forall>c it rest W I G. container g = Some c \<and> children c = it # rest
          \<and> rectWidth c = of_int W \<and> rectWidth it = of_int I \<and> gutter g = of_int G
          \<and> \<bar>W\<bar> < 2 ^ 52 \<and> \<bar>I\<bar> < 2 ^ 52 \<and> \<bar>G\<bar> < 2 ^ 52 \<and> I + G \<noteq> 0 \<longrightarrow>
        (\<exists>w. setup_js g
           = Return (newCols (nat (let q = (W + G) div (I + G); n = (if q = 0 then 1 else q)
                                   in case maxColumns g of
                                        None \<Rightarrow> n
                                      | Some m \<Rightarrow> if m \<noteq> 0 \<and> m < n then m else n)), w)))
   \<and> setup_js (otherWidths f g) = setup_js g
   \<and> positionItems (otherWidths f g) = (fst (positionItems g), otherWidths f (snd (positionItems g)))
   \<and> (\<forall>g' c c' n. positionItems g = (Return (), g') \<and> container g = Some c
          \<and> container g' = Some c' \<and> n < length (children c) \<longrightarrow>
        (\<exists>cols w k before after. setup_js g = Return (cols, w)
            \<and> passTrace g ! n = (k, before, after)
            \<and> placedLeft g (children c' ! n)
                = Some (add_js (Num (of_nat (index (before ! k))
                                      * (rectWidth (hd (children c)) + gutter g)))
                          (centerOffset g w))))"
proof (intro conjI allI impI)
  show "colWidth g = (case container g of
                   None \<Rightarrow> Throw TypeError
                 | Some c \<Rightarrow> (case children c of
                               [] \<Rightarrow> Throw TypeError
                             | it # rest \<Rightarrow> Return (rectWidth it + gutter g)))"
    by (simp add: colWidth_def items_def split: option.splits list.splits)
next
  fix c cw
  assume "container g = Some c \<and> colWidth g = Return cw"
  then show "setup_js g =
           (let numCols = clampCols (maxColumns g)
                            (or_js (floor_js (div_js (Num (rectWidth c + gutter g)) (Num cw))) (Num 1))
            in case makeCols numCols of
                 None \<Rightarrow> Diverge
               | Some cols \<Rightarrow>
                   Return (cols, add_js (sub_js (Num (rectWidth c)) (mul_js numCols (Num cw)))
                                   (Num (gutter g))))"
    using setup_by_colWidth[of g c cw] by blast
next
  fix c it rest W I G
  assume a: "container g = Some c \<and> children c = it # rest
          \<and> rectWidth c = of_int W \<and> rectWidth it = of_int I \<and> gutter g = of_int G
          \<and> \<bar>W\<bar> < 2 ^ 52 \<and> \<bar>I\<bar> < 2 ^ 52 \<and> \<bar>G\<bar> < 2 ^ 52 \<and> I + G \<noteq> 0"
  then have "container g = Some c" "children c = it # rest" "rectWidth c = of_int W"
    "rectWidth it = of_int I" "gutter g = of_int G" "I + G \<noteq> 0"
    by simp_all
  then show "\<exists>w. setup_js g
           = Return (newCols (nat (let q = (W + G) div (I + G); n = (if q = 0 then 1 else q)
                                   in case maxColumns g of
                                        None \<Rightarrow> n
                                      | Some m \<Rightarrow> if m \<noteq> 0 \<and> m < n then m else n)), w)"
    by (rule setup_count_int)
next
  show "setup_js (otherWidths f g) = setup_js g" by (rule setup_otherWidths)
next
  show "positionItems (otherWidths f g) = (fst (positionItems g), otherWidths f (snd (positionItems g)))"
    by (rule positionItems_otherWidths)
next
  fix g' c c' n
  assume a: "positionItems g = (Return (), g') \<and> container g = Some c
          \<and> container g' = Some c' \<and> n < length (children c)"
  then have pg: "positionItems g = (Return (), g')" and c: "container g = Some c"
    and c': "container g' = Some c'" and n: "n < length (children c)" by simp_all
  obtain it rest where its: "children c = it # rest" using n by (cases "children c") auto
  have cw: "colWidth g = Return (rectWidth (hd (children c)) + gutter g)"
    using colWidth_Cons[OF c its] its by simp
  obtain cols w where su: "setup_js g = Return (cols, w)"
    using positionItems_Return_setup[OF pg] by blast
  from pass_item[OF pg c c' n su cw] su
  show "\<exists>cols w k before after. setup_js g = Return (cols, w)
            \<and> passTrace g ! n = (k, before, after)
            \<and> placedLeft g (children c' ! n)
                = Some (add_js (Num (of_nat (index (before ! k))
                                      * (rectWidth (hd (children c)) + gutter g)))
                          (centerOffset g w))"
    by blast
qed

theorem first_item_width_witness:
  "colWidth scenario = Return (90 + 10)
   \<and> (\<exists>w. setup_js scenario = Return (newCols 3, w))
   \<and> positionItems (otherWidths (\<lambda>j. 7) scenario)
       = (fst (positionItems scenario), otherWidths (\<lambda>j. 7) (snd (positionItems scenario)))
   \<and> (\<exists>c' cols w k before after. container (snd (positionItems scenario)) = Some c'
        \<and> setup_js scenario = Return (cols, w)
        \<and> passTrace scenario ! 1 = (k, before, after)
        \<and> placedLeft scenario (children c' ! 1)
            = Some (add_js (Num (of_nat (index (before ! k)) * (90 + 10))) (centerOffset scenario w)))"
proof -
  have r: "fst (positionItems scenario) = Return ()" by code_simp
  have pg: "positionItems scenario = (Return (), snd (positionItems scenario))"
    using r by (metis prod.collapse)
  have "container (snd (positionItems scenario)) \<noteq> None" by code_simp
  then obtain c' where c': "container (snd (positionItems scenario)) = Some c'" by blast
  let ?c = "\<lparr>ident = 0, className = ''grid'', rectWidth = 300,
      rectHeight = 0, style = noStyle, children = scenario_items\<rparr>"
  have c: "container scenario = Some ?c"
    by (simp add: scenario_def grid_of_def)
  have n: "1 < length (children ?c)"
    by (simp add: scenario_items_def)
  have h: "rectWidth (hd (children ?c)) + gutter scenario = 90 + 10"
    by (simp add: scenario_items_def box_def scenario_def grid_of_def)
  note w = first_item_width[of scenario "\<lambda>j. 7"]
  have 1: "colWidth scenario = Return (90 + 10)"
    using w[THEN conjunct1] c by (simp add: scenario_items_def box_def scenario_def grid_of_def)
  have pre: "container scenario = Some ?c
      \<and> children ?c = box 1 90 50 # [box 2 90 80, box 3 90 30, box 4 90 60, box 5 90 40]
      \<and> rectWidth ?c = of_int 300 \<and> rectWidth (box 1 90 50) = of_int 90 \<and> gutter scenario = of_int 10
      \<and> \<bar>300 :: int\<bar> < 2 ^ 52 \<and> \<bar>90 :: int\<bar> < 2 ^ 52 \<and> \<bar>10 :: int\<bar> < 2 ^ 52 \<and> (90 :: int) + 10 \<noteq> 0"
    by (simp add: scenario_def grid_of_def scenario_items_def box_def)
  have mc: "maxColumns scenario = None" by (simp add: scenario_def grid_of_def)
  from w[THEN conjunct2, THEN conjunct2, THEN conjunct1, THEN spec, THEN spec, THEN spec,
      THEN spec, THEN spec, THEN spec, THEN mp, OF pre]
  have 2: "\<exists>w. setup_js scenario = Return (newCols 3, w)"
    by (simp add: mc)
  have 3: "positionItems (otherWidths (\<lambda>j. 7) scenario)
       = (fst (positionItems scenario), otherWidths (\<lambda>j. 7) (snd (positionItems scenario)))"
    using w by blast
  have "\<exists>cols w k before after. setup_js scenario = Return (cols, w)
        \<and> passTrace scenario ! 1 = (k, before, after)
        \<and> placedLeft scenario (children c' ! 1)
            = Some (add_js (Num (of_nat (index (before ! k))
                  * (rectWidth (hd (children ?c)) + gutter scenario)))
                 (centerOffset scenario w))"
    using w pg c c' n by blast
  then have 4: "\<exists>cols w k before after. setup_js scenario = Return (cols, w)
        \<and> passTrace scenario ! 1 = (k, before, after)
        \<and> placedLeft scenario (children c' ! 1)
            = Some (add_js (Num (of_nat (index (before ! k)) * (90 + 10))) (centerOffset scenario w))"
    unfolding h .
  show ?thesis using 1 2 3 4 c' by blast
qed

section \<open>What the constructor starts\<close>




section \<open>A polling tick without the container\<close>

text \<open>
  Claim C7 against the code. The object is made from the container element itself, six
  items are expected and five are there, and the host calls \<^verbatim>\<open>listen\<close>, which sets the
  interval. \<^verbatim>\<open>containerClass\<close> is then the class name \<^verbatim>\<open>grid\<close>, which as a selector finds
  nothing in the page; the tick sets \<^verbatim>\<open>this.container\<close> to \<^verbatim>\<open>null\<close>, and \<^verbatim>\<open>ready\<close> reads
  \<^verbatim>\<open>this.container.children\<close>: a TypeError leaves the callback. The interval stays set.
\<close>

theorem missing_container_tick_throws:
  "constructor page (config_of (Element grid_element) False (Some 6)) idle = (Return waiting, idle)
   \<and> listen (waiting, idle) = (Return (), waiting, idle\<lparr>intervals := 1\<rparr>)
   \<and> page (containerClass waiting) = None
   \<and> tick (page (containerClass waiting)) (waiting, idle\<lparr>intervals := 1\<rparr>)
       = (Throw TypeError, waiting\<lparr>container := None\<rparr>, idle\<lparr>intervals := 1\<rparr>)"
  by (intro conjI; code_simp)

section \<open>Resize notifications\<close>

text \<open>
  Claim C9, as it stands, fails: the timer is set by the first notification of a burst,
  and the later ones do nothing, so the pass is due 200ms after the first notification,
  not after the last. Two notifications at 0 and 100 leave one timer, due at 200 and not
  at 300.
\<close>

theorem resize_timer_from_first:
  "burst [0, 100] (scenario, idle\<lparr>listeners := [None]\<rparr>)
     = (scenario, idle\<lparr>listeners := [Some 200], timers := [(0, 200)]\<rparr>)
   \<and> (200 :: nat) \<noteq> 100 + 200"
  by (intro conjI; code_simp)

text \<open>
  Claim C9, amended. With one listener and no timer pending, a burst of resize
  notifications whose later ones all arrive less than 200ms after the first leaves the
  grid untouched and exactly one timer, due 200ms after the first notification; each
  notification after the first is a no-op. When the host reaches that time the timer
  fires and runs one layout pass; if the pass returns, the marker is cleared and no timer
  is left.
\<close>

theorem resize_burst:
  assumes "listeners h = [None]" and "timers h = []" and "\<forall>s\<in>set ts. s < t + 200"
  shows "burst (t # ts) (g, h) = (g, h\<lparr>listeners := [Some (t + 200)], timers := [(0, t + 200)]\<rparr>)
    \<and> (\<forall>s. s < t + 200 \<longrightarrow>
          notify s (g, h\<lparr>listeners := [Some (t + 200)], timers := [(0, t + 200)]\<rparr>)
            = (g, h\<lparr>listeners := [Some (t + 200)], timers := [(0, t + 200)]\<rparr>))
    \<and> fireDue (t + 200) (g, h\<lparr>listeners := [Some (t + 200)], timers := [(0, t + 200)]\<rparr>)
        = (case positionItems g of
             (Return _, g') \<Rightarrow> (g', h\<lparr>listeners := [None], timers := []\<rparr>)
           | (r, g') \<Rightarrow> (g', h\<lparr>listeners := [Some (t + 200)], timers := []\<rparr>))"
proof -
  let ?h1 = "h\<lparr>listeners := [Some (t + 200)], timers := [(0, t + 200)]\<rparr>"
  have first: "notify t (g, h) = (g, ?h1)"
    using assms(1,2) by (simp add: notify_def fireDue_none resize_one_idle)
  have later: "\<And>s. s < t + 200 \<Longrightarrow> notify s (g, ?h1) = (g, ?h1)"
    by (rule notify_pending) simp_all
  have rest: "burst ts (g, ?h1) = (g, ?h1)"
    by (rule burst_pending[where d = "t + 200" and k = 0]) (use assms(3) in simp_all)
  have b: "burst (t # ts) (g, h) = (g, ?h1)"
    using first rest by (simp add: burst_def)
  have f: "fireDue (t + 200) (g, ?h1)
        = (case positionItems g of
             (Return _, g') \<Rightarrow> (g', h\<lparr>listeners := [None], timers := []\<rparr>)
           | (r, g') \<Rightarrow> (g', h\<lparr>listeners := [Some (t + 200)], timers := []\<rparr>))"
    by (simp add: fireDue_def fire_def split: prod.splits result.splits)
  show ?thesis using b later f by blast
qed

theorem resize_burst_witness:
  "burst [0, 50, 100, 199] (scenario, idle\<lparr>listeners := [None]\<rparr>)
     = (scenario, idle\<lparr>listeners := [Some 200], timers := [(0, 200)]\<rparr>)
   \<and> fireDue 200 (scenario, idle\<lparr>listeners := [Some 200], timers := [(0, 200)]\<rparr>)
       = (snd (positionItems scenario), idle\<lparr>listeners := [None], timers := []\<rparr>)"
proof -
  have r: "fst (positionItems scenario) = Return ()" by code_simp
  have pg: "positionItems scenario = (Return (), snd (positionItems scenario))"
    using r by (metis prod.collapse)
  have a: "listeners (idle\<lparr>listeners := [None]\<rparr>) = [None]" "timers (idle\<lparr>listeners := [None]\<rparr>) = []"
    by (simp_all add: idle_def)
  have b: "\<forall>s\<in>set [50, 100, 199]. s < (0::nat) + 200" by simp
  from resize_burst[OF a b, of scenario] show ?thesis
    by (subst (asm) pg) (simp add: idle_def)
qed

end
